theory Spec2Isabelle
  imports Main
begin

section \<open>JavaScript strings\<close>

text \<open>
  A JavaScript string is modelled as a \<^typ>\<open>string\<close>: one \<^typ>\<open>char\<close> per code unit, so
  the model covers the code units 0 to 255. The functions below are the String methods
  the program calls, with the names they have in the source.
\<close>

definition isWhiteSpace :: "char \<Rightarrow> bool" where
  \<comment> \<open>what \<open>trim\<close> strips and \<open>parseInt\<close> skips: tab, LF, VT, FF, CR, space, NBSP\<close>
  "isWhiteSpace c \<longleftrightarrow>
     c = CHR 0x09 \<or> c = CHR 0x0A \<or> c = CHR 0x0B \<or> c = CHR 0x0C \<or> c = CHR 0x0D \<or>
     c = CHR 0x20 \<or> c = CHR 0xA0"

definition isLineTerminator :: "char \<Rightarrow> bool" where
  \<comment> \<open>what \<open>.\<close> of a regular expression does not match\<close>
  "isLineTerminator c \<longleftrightarrow> c = CHR 0x0A \<or> c = CHR 0x0D"

definition isDigit :: "char \<Rightarrow> bool" where
  "isDigit c \<longleftrightarrow> (48::nat) \<le> of_char c \<and> of_char c \<le> (57::nat)"

definition trim :: "string \<Rightarrow> string" where
  "trim s = rev (dropWhile isWhiteSpace (rev (dropWhile isWhiteSpace s)))"

fun split :: "char \<Rightarrow> string \<Rightarrow> string list" where
  \<comment> \<open>\<open>s.split(c)\<close> for a separator of one character\<close>
  "split c [] = [[]]"
| "split c (x # xs) =
     (if x = c then [] # split c xs
      else (case split c xs of [] \<Rightarrow> [[x]] | w # ws \<Rightarrow> (x # w) # ws))"

primrec startsWith :: "string \<Rightarrow> string \<Rightarrow> bool" where
  \<comment> \<open>\<open>s.startsWith(p)\<close>, recursion on the prefix \<open>p\<close>\<close>
  "startsWith s [] = True"
| "startsWith s (p # ps) = (case s of [] \<Rightarrow> False | x # xs \<Rightarrow> x = p \<and> startsWith xs ps)"

fun includesStr :: "string \<Rightarrow> string \<Rightarrow> bool" where
  \<comment> \<open>\<open>s.includes(t)\<close>: \<open>t\<close> occurs in \<open>s\<close>\<close>
  "includesStr [] t = startsWith [] t"
| "includesStr (x # xs) t = (startsWith (x # xs) t \<or> includesStr xs t)"

fun splitString :: "string \<Rightarrow> string \<Rightarrow> string \<Rightarrow> string list" where
  \<comment> \<open>\<open>s.split(sep)\<close> for a separator of several characters; the second argument holds
      the characters of the current piece, last one first\<close>
  "splitString sep cur [] = [rev cur]"
| "splitString sep cur (x # xs) =
     (if sep \<noteq> [] \<and> startsWith (x # xs) sep
      then rev cur # splitString sep [] (drop (length sep - 1) xs)
      else splitString sep (x # cur) xs)"

definition elem :: "'a list \<Rightarrow> nat \<Rightarrow> 'a option" where
  \<comment> \<open>\<open>a[i]\<close>, and a destructured element: undefined (None) past the end\<close>
  "elem xs i = (if i < length xs then Some (xs ! i) else None)"

definition digitsValue :: "string \<Rightarrow> nat" where
  "digitsValue ds = foldl (\<lambda>a c. 10 * a + (of_char c - 48)) 0 ds"

definition parseInt :: "string option \<Rightarrow> int option" where
  \<comment> \<open>\<open>parseInt(v, 10)\<close>; None is NaN. An undefined argument is converted to the string
      "undefined". The value is the exact integer (a JavaScript number rounds it beyond
      2^53).\<close>
  "parseInt v =
     (let s = dropWhile isWhiteSpace (case v of None \<Rightarrow> ''undefined'' | Some t \<Rightarrow> t);
          neg = (case s of [] \<Rightarrow> False | c # _ \<Rightarrow> c = CHR ''-'');
          r = (case s of [] \<Rightarrow> [] | c # t \<Rightarrow> if c = CHR ''-'' \<or> c = CHR ''+'' then t else s);
          ds = takeWhile isDigit r
      in if ds = [] then None
         else Some (if neg then - int (digitsValue ds) else int (digitsValue ds)))"

definition digitChar :: "nat \<Rightarrow> char" where
  "digitChar d = ''0123456789'' ! d"

fun digitsOf :: "nat \<Rightarrow> string" where
  \<comment> \<open>the decimal digits of a natural number, as a template literal prints it\<close>
  "digitsOf n =
     (if n < 10 then [digitChar n] else digitsOf (n div 10) @ [digitChar (n mod 10)])"

declare digitsOf.simps [simp del]

definition showInt :: "int \<Rightarrow> string" where
  "showInt i = (if i < 0 then CHR ''-'' # digitsOf (nat (- i)) else digitsOf (nat i))"

section \<open>Window records\<close>

record rect =
  rect_x :: "int option"
  rect_y :: "int option"
  rect_width :: "int option"
  rect_height :: "int option"

text \<open>
  A window record \<open>{id, title, owner: {name}, bounds}\<close>. A field that a parser may leave
  undefined is an option; the sentinel record of the last strategy has no bounds.
\<close>

record window =
  win_id :: string
  title :: "string option"
  owner_name :: "string option"
  bounds :: "rect option"

definition zeroBounds :: "rect option" where
  "zeroBounds = Some \<lparr>rect_x = Some 0, rect_y = Some 0, rect_width = Some 0, rect_height = Some 0\<rparr>"

subsection \<open>The parsers of the four strategies (windowDetection.js)\<close>

definition swiftLine :: "string \<Rightarrow> window list" where
  \<comment> \<open>the body of the loop of getWindowListSwift: the records one line adds. \<open>split\<close>
      never returns the empty list, so its first case is never taken.\<close>
  "swiftLine line =
     (if trim line = [] then []
      else (case split (CHR ''|'') line of
              [] \<Rightarrow> []
            | i # rest \<Rightarrow>
                [\<lparr>win_id = i, title = elem rest 1, owner_name = elem rest 0,
                  bounds = Some \<lparr>rect_x = parseInt (elem rest 2), rect_y = parseInt (elem rest 3),
                                  rect_width = parseInt (elem rest 4),
                                  rect_height = parseInt (elem rest 5)\<rparr>\<rparr>]))"

definition parseSwiftOutput :: "string \<Rightarrow> window list" where
  "parseSwiftOutput out = concat (map swiftLine (split (CHR 0x0A) out))"

definition appleScriptLine :: "string \<Rightarrow> window list" where
  \<comment> \<open>the body of the loop of getWindowListAppleScript\<close>
  "appleScriptLine line =
     (if trim line = [] then []
      else (let parts = split (CHR ''|'') line in
            if length parts \<ge> 3
            then [\<lparr>win_id = trim (parts ! 2), title = Some (trim (parts ! 1)),
                   owner_name = Some (trim (parts ! 0)), bounds = zeroBounds\<rparr>]
            else []))"

definition parseAppleScriptOutput :: "string \<Rightarrow> window list" where
  "parseAppleScriptOutput out =
     (let output = trim out in
      if startsWith output ''ERROR:'' then []
      else concat (map appleScriptLine (split (CHR 0x0A) output)))"

definition matchAt :: "string \<Rightarrow> (nat \<times> string \<times> string) option" where
  \<comment> \<open>the regular expression \<open>(\d+)\. (.+)\<close> tried at the start of the text: the length
      of the match and its two groups. Both repetitions are greedy, and giving characters
      back never helps: a digit is not a full stop, and nothing follows \<open>.+\<close>.\<close>
  "matchAt s =
     (let ds = takeWhile isDigit s in
      if ds = [] then None
      else (case dropWhile isDigit s of
              a # b # t \<Rightarrow>
                (let ttl = takeWhile (\<lambda>c. \<not> isLineTerminator c) t in
                 if a = CHR ''.'' \<and> b = CHR '' '' \<and> ttl \<noteq> []
                 then Some (length ds + 2 + length ttl, ds, ttl)
                 else None)
            | _ \<Rightarrow> None))"

fun parseScreencaptureOutput :: "string \<Rightarrow> window list" where
  \<comment> \<open>the loop \<open>while ((match = windowRegex.exec(stderr)) !== null)\<close>: the next match is
      searched from the end of the last one\<close>
  "parseScreencaptureOutput [] = []"
| "parseScreencaptureOutput (c # cs) =
     (case matchAt (c # cs) of
        None \<Rightarrow> parseScreencaptureOutput cs
      | Some (n, i, ttl) \<Rightarrow>
          \<lparr>win_id = i, title = Some ttl, owner_name = elem (split (CHR '' '') ttl) 0,
            bounds = zeroBounds\<rparr>
          # parseScreencaptureOutput (drop (n - 1) cs))"

fun appWindows :: "nat \<Rightarrow> string list \<Rightarrow> window list" where
  \<comment> \<open>the loop of getApplicationsAsFallback over \<open>apps\<close>, from index \<open>i\<close>\<close>
  "appWindows i [] = []"
| "appWindows i (a # as) =
     (let appName = trim a in
      (if appName \<noteq> []
       then [\<lparr>win_id = ''app_'' @ digitsOf i, title = Some (appName @ '' Window''),
              owner_name = Some appName, bounds = zeroBounds\<rparr>]
       else [])
      @ appWindows (Suc i) as)"

definition parseApplications :: "string \<Rightarrow> window list" where
  "parseApplications out = appWindows 0 (splitString '', '' [] (trim out))"

definition dummyWindow :: window where
  "dummyWindow = \<lparr>win_id = ''dummy_0'', title = Some ''Screenshot MCP (Permission issue)'',
                  owner_name = Some ''System'', bounds = None\<rparr>"

section \<open>State, effects and the environment\<close>

text \<open>
  The record a successful capture builds (\<open>screenshotData\<close> in screenshotManager.js).
  Fields that only some captures set are options.
\<close>

record screenshot =
  shot_id :: string
  timestamp :: string
  shot_type :: string
  windowTitle :: "string option"
  windowId :: "string option"
  region :: "(int \<times> int \<times> int \<times> int) option"
  format :: string
  quality :: int
  width :: int
  height :: int
  filePath :: "string option"
  base64 :: string

text \<open>
  The child processes the program starts, one constructor per command line:
  \<^item> \<open>Chmod p\<close>: \<open>chmod +x "p"\<close>; \<open>RunScript p\<close>: \<open>"p"\<close> (the Swift helper);
  \<^item> \<open>OsascriptWindows\<close>: \<open>osascript -e\<close> with the window script of getWindowListAppleScript;
  \<^item> \<open>ScreencaptureList\<close>: \<open>screencapture -lc\<close>;
  \<^item> \<open>OsascriptProcesses\<close>: \<open>osascript -e\<close> with the process query of getApplicationsAsFallback;
  \<^item> \<open>ScreencaptureFull t\<close>: \<open>screencapture "t"\<close>;
  \<^item> \<open>ScreencaptureWindow i t\<close>: \<open>screencapture -l i "t"\<close>;
  \<^item> \<open>ScreencaptureRegion x y w h t\<close>: \<open>screencapture -Rx,y,w,h "t"\<close>.
\<close>

datatype process =
    Chmod string
  | RunScript string
  | OsascriptWindows
  | ScreencaptureList
  | OsascriptProcesses
  | ScreencaptureFull string
  | ScreencaptureWindow string string
  | ScreencaptureRegion int int int int string

datatype event = Spawn process | Write string | Remove string

text \<open>
  The state of the server process and of the disk: the module variable
  \<open>screenshotHistory\<close>, the files, the trace of what the program did to the outside
  (processes started, files written and removed), and the number of clock and random
  readings taken so far.
\<close>

record state =
  history :: "screenshot list"
  files :: "string \<Rightarrow> string option"
  trace :: "event list"
  tick :: nat

record proc_result =
  perror :: "string option"
  pstdout :: string
  pstderr :: string
  pfile :: "string option"

datatype sharp_op = Extract int int int int | ToFormat string | Jpeg int

text \<open>
  What the outside does during one call: the platform, the directory of the screenshots,
  the outcome of each child process (its error, its output streams, and the file a
  capture leaves at its path), failing writes, the libraries the program calls
  (screenshot-desktop, sharp, Buffer's base64 codec), and the clock and random readings,
  numbered in the order the process takes them.
\<close>

record env =
  platform :: string
  screenshot_dir :: string
  run :: "process \<Rightarrow> proc_result"
  write_error :: "string \<Rightarrow> string option"
  desktop :: "string + string"
  sharp :: "sharp_op list \<Rightarrow> string \<Rightarrow> string + string"
  sharp_metadata :: "string \<Rightarrow> string + (int \<times> int)"
  to_base64 :: "string \<Rightarrow> string"
  from_base64 :: "string \<Rightarrow> string"
  date_now :: "nat \<Rightarrow> nat"
  iso_string :: "nat \<Rightarrow> string"
  random1000 :: "nat \<Rightarrow> nat"

subsection \<open>Exceptions and effects\<close>

text \<open>
  A function that may throw returns \<open>Inl\<close> of the error's message or \<open>Inr\<close> of its
  value, with the state it leaves: what was done before a throw stays done.
\<close>

definition ok :: "'a \<Rightarrow> state \<Rightarrow> (string + 'a) \<times> state" where
  "ok x st = (Inr x, st)"

definition throw :: "string \<Rightarrow> state \<Rightarrow> (string + 'a) \<times> state" where
  "throw e st = (Inl e, st)"

definition lift :: "string + 'a \<Rightarrow> state \<Rightarrow> (string + 'a) \<times> state" where
  \<comment> \<open>a call the environment answers without touching the state\<close>
  "lift r st = (r, st)"

definition andThen ::
  "(state \<Rightarrow> (string + 'a) \<times> state) \<Rightarrow> ('a \<Rightarrow> state \<Rightarrow> (string + 'b) \<times> state) \<Rightarrow>
   state \<Rightarrow> (string + 'b) \<times> state" where
  "andThen m f st = (case m st of (Inl e, st') \<Rightarrow> (Inl e, st') | (Inr x, st') \<Rightarrow> f x st')"

definition rethrow ::
  "string \<Rightarrow> (state \<Rightarrow> (string + 'a) \<times> state) \<Rightarrow> state \<Rightarrow> (string + 'a) \<times> state" where
  \<comment> \<open>\<open>try { m } catch (error) { throw new Error(prefix + error.message) }\<close>\<close>
  "rethrow prefix m st = (case m st of (Inl e, st') \<Rightarrow> (Inl (prefix @ e), st') | r \<Rightarrow> r)"

definition pathJoin :: "string \<Rightarrow> string \<Rightarrow> string" where
  "pathJoin dir name = dir @ ''/'' @ name"

fun outputPath :: "process \<Rightarrow> string option" where
  "outputPath (ScreencaptureFull t) = Some t"
| "outputPath (ScreencaptureWindow i t) = Some t"
| "outputPath (ScreencaptureRegion x y w h t) = Some t"
| "outputPath _ = None"

definition spawn :: "env \<Rightarrow> process \<Rightarrow> state \<Rightarrow> state" where
  \<comment> \<open>the process runs: it is recorded, and a capture leaves its file\<close>
  "spawn env p st =
     st\<lparr>trace := trace st @ [Spawn p],
        files := (case outputPath p of
                    None \<Rightarrow> files st
                  | Some t \<Rightarrow> (case pfile (run env p) of
                                None \<Rightarrow> files st
                              | Some content \<Rightarrow> (files st)(t \<mapsto> content)))\<rparr>"

definition execSync :: "env \<Rightarrow> process \<Rightarrow> state \<Rightarrow> (string + unit) \<times> state" where
  "execSync env p st =
     (case perror (run env p) of
        Some e \<Rightarrow> (Inl e, spawn env p st)
      | None \<Rightarrow> (Inr (), spawn env p st))"

definition exec :: "env \<Rightarrow> process \<Rightarrow> state \<Rightarrow> (string + proc_result) \<times> state" where
  \<comment> \<open>\<open>exec(command, callback)\<close>: the callback receives the outcome, error included\<close>
  "exec env p st = (Inr (run env p), spawn env p st)"

definition writeFile :: "env \<Rightarrow> string \<Rightarrow> string \<Rightarrow> state \<Rightarrow> (string + unit) \<times> state" where
  "writeFile env path content st =
     (case write_error env path of
        Some e \<Rightarrow> (Inl e, st)
      | None \<Rightarrow> (Inr (), st\<lparr>files := (files st)(path \<mapsto> content), trace := trace st @ [Write path]\<rparr>))"

definition readFile :: "string \<Rightarrow> state \<Rightarrow> (string + string) \<times> state" where
  "readFile path st =
     (case files st path of
        None \<Rightarrow> (Inl (''ENOENT: no such file or directory, open '' @ path), st)
      | Some content \<Rightarrow> (Inr content, st))"

definition removeFile :: "string \<Rightarrow> state \<Rightarrow> (string + unit) \<times> state" where
  \<comment> \<open>\<open>fs.remove\<close> and the unlink whose failure is only logged: a missing file is no error\<close>
  "removeFile path st =
     (Inr (), st\<lparr>files := (files st)(path := None), trace := trace st @ [Remove path]\<rparr>)"

definition newDateISO :: "env \<Rightarrow> state \<Rightarrow> (string + string) \<times> state" where
  \<comment> \<open>\<open>new Date().toISOString()\<close>\<close>
  "newDateISO env st = (Inr (iso_string env (tick st)), st\<lparr>tick := Suc (tick st)\<rparr>)"

definition dateNow :: "env \<Rightarrow> state \<Rightarrow> (string + nat) \<times> state" where
  "dateNow env st = (Inr (date_now env (tick st)), st\<lparr>tick := Suc (tick st)\<rparr>)"

definition generateId :: "env \<Rightarrow> state \<Rightarrow> (string + string) \<times> state" where
  \<comment> \<open>\<open>`ss_${Date.now()}_${Math.floor(Math.random() * 1000)}`\<close>\<close>
  "generateId env st =
     (Inr (''ss_'' @ digitsOf (date_now env (tick st)) @ ''_''
           @ digitsOf (random1000 env (tick st) mod 1000)),
      st\<lparr>tick := Suc (tick st)\<rparr>)"

section \<open>Window discovery (windowDetection.js)\<close>

definition interp :: "string \<Rightarrow> string" where
  \<comment> \<open>a Swift string interpolation: backslash, then the expression in parentheses\<close>
  "interp v = CHR 0x5C # ''('' @ v @ '')''"

definition unlines :: "string list \<Rightarrow> string" where
  "unlines ls = concat (map (\<lambda>l. l @ [CHR 0x0A]) ls)"

definition swiftScript :: string where
  \<comment> \<open>the text of the helper that getWindowListSwift writes and runs\<close>
  \<open>swiftScript = CHR 0x0A # unlines
     [''#!/usr/bin/swift'',
      ''import Cocoa'',
      '''',
      ''// Get window list with detailed info'',
      ''let windowList = CGWindowListCopyWindowInfo([.optionOnScreenOnly, .excludeDesktopElements], kCGNullWindowID) as! [[String: Any]]'',
      '''',
      ''for window in windowList {'',
      ''    let windowID = window[kCGWindowNumber as String] as! Int'',
      ''    let ownerName = window[kCGWindowOwnerName as String] as? String ?? "Unknown"'',
      ''    let windowName = window[kCGWindowName as String] as? String ?? ""'',
      ''    '',
      ''    // Skip windows without names or system windows we don't want to capture'',
      ''    if windowName.isEmpty || ownerName == "Window Server" || ownerName == "Dock" {'',
      ''        continue'',
      ''    }'',
      ''    '',
      ''    let bounds = window[kCGWindowBounds as String] as! CFDictionary'',
      ''    let boundsDict = bounds as! [String: Any]'',
      ''    let x = boundsDict["X"] as! CGFloat'',
      ''    let y = boundsDict["Y"] as! CGFloat'',
      ''    let width = boundsDict["Width"] as! CGFloat'',
      ''    let height = boundsDict["Height"] as! CGFloat'',
      ''    '',
      ''    // Output in a format we can easily parse (pipe-separated)'',
      ''    print("'' @ interp ''windowID'' @ ''|'' @ interp ''ownerName'' @ ''|''
        @ interp ''windowName'' @ ''|'' @ interp ''Int(x)'' @ ''|'' @ interp ''Int(y)'' @ ''|''
        @ interp ''Int(width)'' @ ''|'' @ interp ''Int(height)'' @ ''")'',
      ''}'']\<close>

definition getWindowListSwift :: "env \<Rightarrow> state \<Rightarrow> (string + window list) \<times> state" where
  \<comment> \<open>Strategy 1. A failing write or chmod throws; a failing run resolves to no window.\<close>
  "getWindowListSwift env =
     (let scriptPath = pathJoin (screenshot_dir env) ''getWindows.swift'' in
      andThen (writeFile env scriptPath swiftScript) (\<lambda>_.
      andThen (execSync env (Chmod scriptPath)) (\<lambda>_.
      andThen (exec env (RunScript scriptPath)) (\<lambda>r.
      andThen (removeFile scriptPath) (\<lambda>_.
      ok (if perror r \<noteq> None then [] else parseSwiftOutput (pstdout r)))))))"

definition getWindowListAppleScript :: "env \<Rightarrow> state \<Rightarrow> (string + window list) \<times> state" where
  \<comment> \<open>Strategy 2. The promise always resolves.\<close>
  "getWindowListAppleScript env =
     andThen (exec env OsascriptWindows) (\<lambda>r.
     ok (if perror r \<noteq> None then [] else parseAppleScriptOutput (pstdout r)))"

definition getWindowListScreencapture :: "env \<Rightarrow> state \<Rightarrow> (string + window list) \<times> state" where
  \<comment> \<open>Strategy 3: the numbered entries of the tool's diagnostic stream.\<close>
  "getWindowListScreencapture env =
     andThen (exec env ScreencaptureList) (\<lambda>r.
     ok (if perror r \<noteq> None then [] else parseScreencaptureOutput (pstderr r)))"

definition getApplicationsAsFallback :: "env \<Rightarrow> state \<Rightarrow> (string + window list) \<times> state" where
  \<comment> \<open>Strategy 4: the sentinel record when the query fails, else one record per name.\<close>
  "getApplicationsAsFallback env =
     andThen (exec env OsascriptProcesses) (\<lambda>r.
     ok (if perror r \<noteq> None then [dummyWindow] else parseApplications (pstdout r)))"

definition cascade :: "env \<Rightarrow> state \<Rightarrow> (string + window list) \<times> state" where
  \<comment> \<open>the body of the \<open>try\<close> of getWindowList\<close>
  "cascade env =
     andThen (getWindowListSwift env) (\<lambda>swiftWindows.
       if length swiftWindows > 0 then ok swiftWindows
       else andThen (getWindowListAppleScript env) (\<lambda>appleScriptWindows.
         if length appleScriptWindows > 0 then ok appleScriptWindows
         else andThen (getWindowListScreencapture env) (\<lambda>screencaptureWindows.
           if length screencaptureWindows > 0 then ok screencaptureWindows
           else andThen (getApplicationsAsFallback env) (\<lambda>appWindows. ok appWindows))))"

definition getWindowList :: "env \<Rightarrow> state \<Rightarrow> (string + window list) \<times> state" where
  "getWindowList env st =
     (if platform env \<noteq> ''darwin'' then throw ''Window listing is only supported on macOS'' st
      else (case cascade env st of
              (Inl e, st') \<Rightarrow> (Inr [], st')
            | r \<Rightarrow> r))"

section \<open>The screenshot manager (screenshotManager.js)\<close>

text \<open>
  The options object of a capture call; None is an absent (undefined) property.
\<close>

record options =
  opt_windowTitle :: "string option"
  opt_format :: "string option"
  opt_quality :: "int option"
  opt_saveToFile :: "bool option"
  opt_x :: "int option"
  opt_y :: "int option"
  opt_width :: "int option"
  opt_height :: "int option"
  opt_appType :: "string option"

definition formatOf :: "options \<Rightarrow> string" where
  \<comment> \<open>\<open>options.format || 'png'\<close>: the empty string is falsy\<close>
  "formatOf opts = (case opt_format opts of None \<Rightarrow> ''png'' | Some f \<Rightarrow> if f = [] then ''png'' else f)"

definition qualityOf :: "options \<Rightarrow> int" where
  \<comment> \<open>\<open>options.quality || 100\<close>: zero is falsy\<close>
  "qualityOf opts = (case opt_quality opts of None \<Rightarrow> 100 | Some q \<Rightarrow> if q = 0 then 100 else q)"

definition saveToFileOf :: "options \<Rightarrow> bool" where
  \<comment> \<open>\<open>options.saveToFile !== undefined ? options.saveToFile : true\<close>\<close>
  "saveToFileOf opts = (case opt_saveToFile opts of None \<Rightarrow> True | Some b \<Rightarrow> b)"

definition stamp :: "string \<Rightarrow> string" where
  \<comment> \<open>\<open>timestamp.replace(/[:.]/g, '-')\<close>\<close>
  "stamp ts = map (\<lambda>c. if c = CHR '':'' \<or> c = CHR ''.'' then CHR ''-'' else c) ts"

definition isAlnum :: "char \<Rightarrow> bool" where
  "isAlnum c \<longleftrightarrow>
     (let n = (of_char c :: nat) in (48 \<le> n \<and> n \<le> 57) \<or> (65 \<le> n \<and> n \<le> 90) \<or> (97 \<le> n \<and> n \<le> 122))"

definition sanitize :: "string \<Rightarrow> string" where
  \<comment> \<open>\<open>windowTitle.replace(/[^a-zA-Z0-9]/g, '_')\<close>\<close>
  "sanitize t = map (\<lambda>c. if isAlnum c then c else CHR ''_'') t"

subsection \<open>The history\<close>

definition addToHistory :: "screenshot \<Rightarrow> screenshot list \<Rightarrow> screenshot list" where
  \<comment> \<open>\<open>shift\<close> when a hundred are held, then \<open>push\<close>\<close>
  "addToHistory s h = (if length h \<ge> 100 then tl h else h) @ [s]"

definition getScreenshotById :: "screenshot list \<Rightarrow> string \<Rightarrow> screenshot option" where
  \<comment> \<open>\<open>screenshotHistory.find(screenshot => screenshot.id === id)\<close>; None is undefined\<close>
  "getScreenshotById h i = find (\<lambda>s. shot_id s = i) h"

definition remember :: "screenshot \<Rightarrow> state \<Rightarrow> (string + unit) \<times> state" where
  \<comment> \<open>the call \<open>addToHistory(screenshotData)\<close> on the module's history\<close>
  "remember s st = (Inr (), st\<lparr>history := addToHistory s (history st)\<rparr>)"

subsection \<open>The captures\<close>

definition convert :: "env \<Rightarrow> string \<Rightarrow> int \<Rightarrow> string \<Rightarrow> state \<Rightarrow> (string + string) \<times> state" where
  \<comment> \<open>\<open>if (format === 'jpg' || quality < 100) sharp(buffer).jpeg({quality}).toBuffer()\<close>\<close>
  "convert env fmt q buf =
     (if fmt = ''jpg'' \<or> q < 100 then lift (sharp env [Jpeg q] buf) else ok buf)"

definition captureFullScreen :: "env \<Rightarrow> options \<Rightarrow> state \<Rightarrow> (string + screenshot) \<times> state" where
  "captureFullScreen env opts =
     (let fmt = formatOf opts; q = qualityOf opts; saveToFile = saveToFileOf opts in
      rethrow ''Failed to capture full screen: ''
       (andThen (newDateISO env) (\<lambda>ts.
        let path = pathJoin (screenshot_dir env) (''fullscreen_'' @ stamp ts @ ''.'' @ fmt);
            fp = (if saveToFile then Some path else None)
        in
        andThen (lift (desktop env)) (\<lambda>imgBuffer.
        andThen (convert env fmt q imgBuffer) (\<lambda>processedBuffer.
        andThen (if saveToFile then writeFile env path processedBuffer else ok ()) (\<lambda>_.
        andThen (generateId env) (\<lambda>i.
        andThen (lift (sharp_metadata env processedBuffer)) (\<lambda>(w, h).
        let screenshotData =
              \<lparr>shot_id = i, timestamp = ts, shot_type = ''fullscreen'', windowTitle = None,
               windowId = None, region = None, format = fmt, quality = q, width = w,
               height = h, filePath = fp, base64 = to_base64 env processedBuffer\<rparr>
        in
        andThen (remember screenshotData) (\<lambda>_. ok screenshotData)))))))))"

definition matchesTitle :: "string \<Rightarrow> window \<Rightarrow> bool" where
  \<comment> \<open>\<open>win.title && win.title.includes(windowTitle)\<close>\<close>
  "matchesTitle t win = (case title win of None \<Rightarrow> False | Some w \<Rightarrow> w \<noteq> [] \<and> includesStr w t)"

definition captureCommand :: "window \<Rightarrow> string \<Rightarrow> process" where
  \<comment> \<open>the branch on \<open>targetWindow.id.startsWith('app_')\<close>\<close>
  "captureCommand targetWindow tempFilePath =
     (if startsWith (win_id targetWindow) ''app_'' then ScreencaptureFull tempFilePath
      else ScreencaptureWindow (win_id targetWindow) tempFilePath)"

definition notFound :: "string \<Rightarrow> string" where
  "notFound t = ''Window with title '' @ [CHR 0x22] @ t @ [CHR 0x22] @ '' not found''"

definition captureWindow :: "env \<Rightarrow> options \<Rightarrow> state \<Rightarrow> (string + screenshot) \<times> state" where
  "captureWindow env opts =
     (let fmt = formatOf opts; q = qualityOf opts; saveToFile = saveToFileOf opts in
      case opt_windowTitle opts of
        None \<Rightarrow> throw ''Window title is required''
      | Some t \<Rightarrow>
         if t = [] then throw ''Window title is required''
         else
          rethrow ''Failed to capture window: ''
           (andThen (getWindowList env) (\<lambda>windows.
            case find (matchesTitle t) windows of
              None \<Rightarrow> throw (notFound t)
            | Some targetWindow \<Rightarrow>
               andThen (newDateISO env) (\<lambda>ts.
               let path = pathJoin (screenshot_dir env)
                            (''window_'' @ sanitize t @ ''_'' @ stamp ts @ ''.'' @ fmt);
                   fp = (if saveToFile then Some path else None)
               in
               if platform env = ''darwin'' then
                 rethrow ''Failed to capture window using screencapture: ''
                  (andThen (dateNow env) (\<lambda>now.
                   let tempFilePath =
                         pathJoin (screenshot_dir env) (''temp_'' @ digitsOf now @ ''.png'')
                   in
                   andThen (execSync env (captureCommand targetWindow tempFilePath)) (\<lambda>_.
                   andThen (readFile tempFilePath) (\<lambda>buffer.
                   andThen (convert env fmt q buffer) (\<lambda>processedBuffer.
                   andThen (if saveToFile then writeFile env path processedBuffer else ok ()) (\<lambda>_.
                   andThen (removeFile tempFilePath) (\<lambda>_.
                   andThen (lift (sharp_metadata env processedBuffer)) (\<lambda>(w, h).
                   andThen (generateId env) (\<lambda>i.
                   let screenshotData =
                         \<lparr>shot_id = i, timestamp = ts, shot_type = ''window'',
                          windowTitle = Some t, windowId = Some (win_id targetWindow),
                          region = None, format = fmt, quality = q, width = w, height = h,
                          filePath = fp, base64 = to_base64 env processedBuffer\<rparr>
                   in
                   andThen (remember screenshotData) (\<lambda>_. ok screenshotData))))))))))
               else throw ''Window capture is currently only supported on macOS''))))"

definition appTypeOf :: "options \<Rightarrow> string" where
  \<comment> \<open>\<open>options.appType || 'any'\<close>\<close>
  "appTypeOf opts = (case opt_appType opts of None \<Rightarrow> ''any'' | Some a \<Rightarrow> if a = [] then ''any'' else a)"

fun findGodot :: "window list \<Rightarrow> string + window option" where
  \<comment> \<open>\<open>windows.find(win => win.title && (win.title.includes('Godot') ||
      win.owner.name.includes('Godot')))\<close>; reading \<open>includes\<close> of an undefined owner name
      raises a TypeError, and \<open>Inr None\<close> is the undefined of a search that found nothing\<close>
  "findGodot [] = Inr None"
| "findGodot (win # rest) =
     (case title win of
        None \<Rightarrow> findGodot rest
      | Some t \<Rightarrow>
         if t = [] then findGodot rest
         else if includesStr t ''Godot'' then Inr (Some win)
         else (case owner_name win of
                 None \<Rightarrow> Inl ''Cannot read properties of undefined (reading 'includes')''
               | Some n \<Rightarrow> if includesStr n ''Godot'' then Inr (Some win) else findGodot rest))"

definition isPygame :: "window \<Rightarrow> bool" where
  \<comment> \<open>\<open>win.title && (win.title.includes('pygame') || win.title.includes('PyGame'))\<close>\<close>
  "isPygame win =
     (case title win of
        None \<Rightarrow> False
      | Some t \<Rightarrow> t \<noteq> [] \<and> (includesStr t ''pygame'' \<or> includesStr t ''PyGame''))"

definition delegated :: "options \<Rightarrow> window \<Rightarrow> options" where
  \<comment> \<open>\<open>{windowTitle: targetWindow.title, ...options}\<close>: a \<open>windowTitle\<close> among the options
      replaces the target's\<close>
  "delegated opts targetWindow =
     (case opt_windowTitle opts of
        None \<Rightarrow> opts\<lparr>opt_windowTitle := title targetWindow\<rparr>
      | Some _ \<Rightarrow> opts)"

definition noApplication :: "string \<Rightarrow> string" where
  "noApplication appType =
     ''No '' @ (if appType = ''any'' then ''Godot or PyGame'' else appType) @ '' application found''"

text \<open>
  The \<open>try\<close> block of captureApplication ends with \<open>return captureWindow(...)\<close>, without
  \<open>await\<close>: a rejection of that call is not caught there, and reaches the caller with
  the message captureWindow gave it.
\<close>

definition captureApplication :: "env \<Rightarrow> options \<Rightarrow> state \<Rightarrow> (string + screenshot) \<times> state" where
  "captureApplication env opts =
     (let appType = appTypeOf opts in
      andThen
       (rethrow ''Failed to capture application: ''
         (andThen (getWindowList env) (\<lambda>windows.
          andThen (if appType = ''godot'' \<or> appType = ''any'' then lift (findGodot windows)
                   else ok None) (\<lambda>godot.
          let targetWindow =
                (if godot = None \<and> (appType = ''pygame'' \<or> appType = ''any'')
                 then find isPygame windows else godot)
          in
          case targetWindow of
            None \<Rightarrow> throw (noApplication appType)
          | Some win \<Rightarrow> ok win))))
       (\<lambda>targetWindow. captureWindow env (delegated opts targetWindow)))"

definition captureRegion :: "env \<Rightarrow> options \<Rightarrow> state \<Rightarrow> (string + screenshot) \<times> state" where
  "captureRegion env opts =
     (let fmt = formatOf opts; q = qualityOf opts; saveToFile = saveToFileOf opts in
      case (opt_x opts, opt_y opts, opt_width opts, opt_height opts) of
        (Some x, Some y, Some w, Some h) \<Rightarrow>
          (let name = (\<lambda>ts. ''region_'' @ showInt x @ ''_'' @ showInt y @ ''_'' @ showInt w @ ''_''
                             @ showInt h @ ''_'' @ stamp ts @ ''.'' @ fmt)
           in
           rethrow ''Failed to capture region: ''
            (if platform env = ''darwin'' then
               rethrow ''Failed to capture region using screencapture: ''
                (andThen (dateNow env) (\<lambda>now.
                 let tempFilePath =
                       pathJoin (screenshot_dir env) (''temp_'' @ digitsOf now @ ''.png'')
                 in
                 andThen (newDateISO env) (\<lambda>ts.
                 let path = pathJoin (screenshot_dir env) (name ts);
                     fp = (if saveToFile then Some path else None)
                 in
                 andThen (execSync env (ScreencaptureRegion x y w h tempFilePath)) (\<lambda>_.
                 andThen (readFile tempFilePath) (\<lambda>buffer.
                 andThen (convert env fmt q buffer) (\<lambda>processedBuffer.
                 andThen (if saveToFile then writeFile env path processedBuffer else ok ()) (\<lambda>_.
                 andThen (removeFile tempFilePath) (\<lambda>_.
                 andThen (generateId env) (\<lambda>i.
                 let screenshotData =
                       \<lparr>shot_id = i, timestamp = ts, shot_type = ''region'', windowTitle = None,
                        windowId = None, region = Some (x, y, w, h), format = fmt, quality = q,
                        width = w, height = h, filePath = fp,
                        base64 = to_base64 env processedBuffer\<rparr>
                 in
                 andThen (remember screenshotData) (\<lambda>_. ok screenshotData))))))))))
             else
               andThen (captureFullScreen env
                          \<lparr>opt_windowTitle = None, opt_format = Some ''png'', opt_quality = None,
                           opt_saveToFile = Some False, opt_x = None, opt_y = None,
                           opt_width = None, opt_height = None, opt_appType = None\<rparr>)
                 (\<lambda>fullScreenCapture.
               andThen (lift (sharp env [Extract x y w h,
                                         ToFormat (if fmt = ''jpg'' then ''jpeg'' else ''png''),
                                         Jpeg q]
                                (from_base64 env (base64 fullScreenCapture)))) (\<lambda>processedBuffer.
               andThen (newDateISO env) (\<lambda>ts.
               let path = pathJoin (screenshot_dir env) (name ts);
                   fp = (if saveToFile then Some path else None)
               in
               andThen (if saveToFile then writeFile env path processedBuffer else ok ()) (\<lambda>_.
               andThen (generateId env) (\<lambda>i.
               let screenshotData =
                     \<lparr>shot_id = i, timestamp = ts, shot_type = ''region'', windowTitle = None,
                      windowId = None, region = Some (x, y, w, h), format = fmt, quality = q,
                      width = w, height = h, filePath = fp,
                      base64 = to_base64 env processedBuffer\<rparr>
               in
               andThen (remember screenshotData) (\<lambda>_. ok screenshotData))))))))
      | _ \<Rightarrow> throw ''Region coordinates (x, y, width, height) are required'')"

section \<open>The tools and the resources (captureTools.js, screenshotResources.js)\<close>

datatype 'a response = Success 'a | Failure string

text \<open>
  The \<open>screenshot\<close> object of a tool's answer. \<open>windowTitle\<close>, \<open>windowId\<close>, \<open>region\<close>
  and \<open>appType\<close> are there in the answers of the tools that set them.
\<close>

record reply =
  r_id :: string
  r_timestamp :: string
  r_type :: string
  r_windowTitle :: "string option"
  r_windowId :: "string option"
  r_region :: "(int \<times> int \<times> int \<times> int) option"
  r_format :: string
  r_width :: int
  r_height :: int
  r_filePath :: "string option"
  r_base64Preview :: string
  r_appType :: "string option"

definition replyOf :: "screenshot \<Rightarrow> reply" where
  "replyOf r =
     \<lparr>r_id = shot_id r, r_timestamp = timestamp r, r_type = shot_type r,
      r_windowTitle = windowTitle r, r_windowId = windowId r, r_region = region r,
      r_format = format r, r_width = width r, r_height = height r, r_filePath = filePath r,
      r_base64Preview = take 100 (base64 r) @ ''...'', r_appType = None\<rparr>"

datatype tool = Capture_full_screen | Capture_window | Capture_application | Capture_region

fun capture :: "tool \<Rightarrow> env \<Rightarrow> options \<Rightarrow> state \<Rightarrow> (string + screenshot) \<times> state" where
  \<comment> \<open>the function of the screenshot manager that each tool calls\<close>
  "capture Capture_full_screen = captureFullScreen"
| "capture Capture_window = captureWindow"
| "capture Capture_application = captureApplication"
| "capture Capture_region = captureRegion"

fun answer :: "tool \<Rightarrow> options \<Rightarrow> screenshot \<Rightarrow> reply" where
  \<comment> \<open>the \<open>screenshot\<close> object each tool builds from the record; capture_application
      adds \<open>appType: params.appType || 'any'\<close> and leaves the window id out\<close>
  "answer Capture_full_screen params r = replyOf r"
| "answer Capture_window params r = replyOf r"
| "answer Capture_application params r =
     (replyOf r)\<lparr>r_windowId := None, r_appType := Some (appTypeOf params)\<rparr>"
| "answer Capture_region params r = replyOf r"

definition handler ::
  "(screenshot \<Rightarrow> reply) \<Rightarrow> (state \<Rightarrow> (string + screenshot) \<times> state) \<Rightarrow> state
     \<Rightarrow> reply response \<times> state" where
  \<comment> \<open>the \<open>try\<close>/\<open>catch\<close> every tool wraps its capture in\<close>
  "handler describe call st =
     (case call st of
        (Inl e, st') \<Rightarrow> (Failure e, st')
      | (Inr r, st') \<Rightarrow> (Success (describe r), st'))"

definition callTool :: "tool \<Rightarrow> env \<Rightarrow> options \<Rightarrow> state \<Rightarrow> reply response \<times> state" where
  "callTool t env params = handler (answer t params) (capture t env params)"

record resource =
  s_id :: string
  s_timestamp :: string
  s_type :: string
  s_format :: string
  s_width :: int
  s_height :: int
  s_filePath :: "string option"
  s_base64 :: string

definition screenshotById :: "env \<Rightarrow> string option \<Rightarrow> state \<Rightarrow> resource response" where
  \<comment> \<open>the resource \<open>history/{id}\<close>\<close>
  "screenshotById env param st =
     (case param of
        None \<Rightarrow> Failure ''Screenshot ID is required''
      | Some i \<Rightarrow>
         if i = [] then Failure ''Screenshot ID is required''
         else
          (case getScreenshotById (history st) i of
             None \<Rightarrow> Failure (''Screenshot with ID '' @ [CHR 0x22] @ i @ [CHR 0x22] @ '' not found'')
           | Some s \<Rightarrow>
              (let fp = (case filePath s of None \<Rightarrow> None | Some p \<Rightarrow> if p = [] then None else Some p);
                   answer = (\<lambda>data.
                     Success \<lparr>s_id = shot_id s, s_timestamp = timestamp s, s_type = shot_type s,
                              s_format = format s, s_width = width s, s_height = height s,
                              s_filePath = filePath s, s_base64 = data\<rparr>)
               in
               case fp of
                 None \<Rightarrow> answer (base64 s)
               | Some p \<Rightarrow>
                  if files st p = None then Failure ''Screenshot file no longer exists''
                  else (case readFile p st of
                          (Inl e, _) \<Rightarrow> Failure e
                        | (Inr buffer, _) \<Rightarrow> answer (to_base64 env buffer)))))"

section \<open>Concrete states and environments\<close>

text \<open>
  The inputs at which the theorems below are evaluated. \<open>initialState\<close> is the state
  of a server that has just started: \<open>const screenshotHistory = []\<close>, an empty
  screenshot directory, nothing done yet.
\<close>

definition initialState :: state where
  "initialState = \<lparr>history = [], files = (\<lambda>_. None), trace = [], tick = 0\<rparr>"

definition failed :: "string \<Rightarrow> proc_result" where
  "failed msg = \<lparr>perror = Some msg, pstdout = [], pstderr = [], pfile = None\<rparr>"

definition printed :: "string \<Rightarrow> proc_result" where
  "printed out = \<lparr>perror = None, pstdout = out, pstderr = [], pfile = None\<rparr>"

definition complained :: "string \<Rightarrow> proc_result" where
  "complained err = \<lparr>perror = None, pstdout = [], pstderr = err, pfile = None\<rparr>"

definition captured :: "string \<Rightarrow> proc_result" where
  "captured img = \<lparr>perror = None, pstdout = [], pstderr = [], pfile = Some img\<rparr>"

definition macEnv :: "proc_result \<Rightarrow> proc_result \<Rightarrow> proc_result \<Rightarrow> proc_result \<Rightarrow> env" where
  \<comment> \<open>a macOS machine on which the four discovery commands end as given, every capture
      leaves the image \<open>PNG\<close>, sharp's output is marked \<open>jpeg:\<close>, and the
      clock advances by one at every reading\<close>
  "macEnv swift windows listing processes =
     \<lparr>platform = ''darwin'', screenshot_dir = ''/srv/screenshots'',
      run = (\<lambda>p. case p of
                   Chmod _ \<Rightarrow> printed []
                 | RunScript _ \<Rightarrow> swift
                 | OsascriptWindows \<Rightarrow> windows
                 | ScreencaptureList \<Rightarrow> listing
                 | OsascriptProcesses \<Rightarrow> processes
                 | _ \<Rightarrow> captured ''PNG''),
      write_error = (\<lambda>_. None),
      desktop = Inr ''PNG'',
      sharp = (\<lambda>ops buf. Inr (''jpeg:'' @ buf)),
      sharp_metadata = (\<lambda>buf. Inr (1920, 1080)),
      to_base64 = (\<lambda>buf. ''base64,'' @ buf),
      from_base64 = drop 7,
      date_now = (\<lambda>n. 1700000000000 + n),
      iso_string = (\<lambda>n. ''2024-01-01T00:00:00.00'' @ digitsOf (n mod 10) @ ''Z''),
      random1000 = (\<lambda>n. 7 * n)\<rparr>"

definition quietEnv :: env where
  \<comment> \<open>every discovery command succeeds and prints nothing: no window, no visible process\<close>
  "quietEnv = macEnv (printed []) (printed []) (complained []) (printed [])"

definition deniedEnv :: env where
  \<comment> \<open>every discovery command fails, as without the permissions\<close>
  "deniedEnv = macEnv (failed ''denied'') (failed ''denied'') (failed ''denied'') (failed ''denied'')"

definition swiftEnv :: env where
  "swiftEnv = macEnv (printed (''1234|Safari|My Page|0|25|800|600'' @ [CHR 0x0A]))
                (failed ''denied'') (failed ''denied'') (failed ''denied'')"

definition appleScriptEnv :: env where
  "appleScriptEnv = macEnv (failed ''denied'') (printed (''Safari|My Page|1234'' @ [CHR 0x0A]))
                      (failed ''denied'') (failed ''denied'')"

definition listingEnv :: env where
  "listingEnv = macEnv (failed ''denied'') (failed ''denied'')
                  (complained (''12. Safari Home'' @ [CHR 0x0A])) (failed ''denied'')"

definition processEnv :: env where
  "processEnv = macEnv (failed ''denied'') (failed ''denied'') (failed ''denied'')
                  (printed (''Finder, Safari'' @ [CHR 0x0A]))"

definition godotEnv :: env where
  \<comment> \<open>the second strategy finds one window, of the application Godot\<close>
  "godotEnv = macEnv (failed ''denied'') (printed (''Godot|Main Scene|77'' @ [CHR 0x0A]))
                (failed ''denied'') (failed ''denied'')"

definition noOpts :: options where
  \<comment> \<open>\<open>{}\<close>\<close>
  "noOpts = \<lparr>opt_windowTitle = None, opt_format = None, opt_quality = None,
              opt_saveToFile = None, opt_x = None, opt_y = None, opt_width = None,
              opt_height = None, opt_appType = None\<rparr>"

definition regionOpts :: options where
  \<comment> \<open>\<open>{x: 100, y: 100, width: 400, height: 300}\<close>\<close>
  "regionOpts = \<lparr>opt_windowTitle = None, opt_format = None, opt_quality = None,
                  opt_saveToFile = None, opt_x = Some 100, opt_y = Some 100,
                  opt_width = Some 400, opt_height = Some 300, opt_appType = None\<rparr>"

definition windowOpts :: "string \<Rightarrow> options" where
  \<comment> \<open>\<open>{windowTitle: t}\<close>\<close>
  "windowOpts t = \<lparr>opt_windowTitle = Some t, opt_format = None, opt_quality = None,
                    opt_saveToFile = None, opt_x = None, opt_y = None, opt_width = None,
                    opt_height = None, opt_appType = None\<rparr>"

definition idAt :: "env \<Rightarrow> nat \<Rightarrow> string" where
  \<comment> \<open>the id generateId builds from the n-th readings of the clock and of the random source\<close>
  "idAt env n =
     ''ss_'' @ digitsOf (date_now env n) @ ''_'' @ digitsOf (random1000 env n mod 1000)"

definition fullCall :: "tool \<times> env \<times> options" where
  \<comment> \<open>capture_full_screen with no parameter, where every discovery command prints nothing\<close>
  "fullCall = (Capture_full_screen, quietEnv, noOpts)"

definition shotAt :: "nat \<Rightarrow> screenshot" where
  \<comment> \<open>the record \<open>fullCall\<close> returns when it starts after \<open>t\<close> readings\<close>
  "shotAt t =
     \<lparr>shot_id = idAt quietEnv (Suc t), timestamp = iso_string quietEnv t,
      shot_type = ''fullscreen'', windowTitle = None, windowId = None, region = None,
      format = ''png'', quality = 100, width = 1920, height = 1080,
      filePath = Some (''/srv/screenshots/fullscreen_'' @ stamp (iso_string quietEnv t) @ ''.png''),
      base64 = ''base64,PNG''\<rparr>"

definition linuxEnv :: env where
  \<comment> \<open>the same machine with another platform: region captures crop a full-screen capture\<close>
  "linuxEnv = quietEnv\<lparr>platform := ''linux''\<rparr>"

definition regionCall :: "tool \<times> env \<times> options" where
  "regionCall = (Capture_region, linuxEnv, regionOpts)"

definition wholeAt :: "nat \<Rightarrow> screenshot" where
  \<comment> \<open>the record of the full-screen capture that \<open>regionCall\<close> crops, started after \<open>t\<close>
      readings\<close>
  "wholeAt t =
     \<lparr>shot_id = idAt linuxEnv (Suc t), timestamp = iso_string linuxEnv t,
      shot_type = ''fullscreen'', windowTitle = None, windowId = None, region = None,
      format = ''png'', quality = 100, width = 1920, height = 1080, filePath = None,
      base64 = ''base64,PNG''\<rparr>"

definition croppedAt :: "nat \<Rightarrow> screenshot" where
  \<comment> \<open>the record \<open>regionCall\<close> returns when it starts after \<open>t\<close> readings\<close>
  "croppedAt t =
     \<lparr>shot_id = idAt linuxEnv (Suc (Suc (Suc t))), timestamp = iso_string linuxEnv (Suc (Suc t)),
      shot_type = ''region'', windowTitle = None, windowId = None,
      region = Some (100, 100, 400, 300), format = ''png'', quality = 100, width = 400,
      height = 300,
      filePath = Some (''/srv/screenshots/region_100_100_400_300_''
                       @ stamp (iso_string linuxEnv (Suc (Suc t))) @ ''.png''),
      base64 = ''base64,jpeg:PNG''\<rparr>"

definition stuckEnv :: env where
  \<comment> \<open>the clock and the random source give the same reading every time\<close>
  "stuckEnv = quietEnv\<lparr>date_now := (\<lambda>n. 5), iso_string := (\<lambda>n. ''2024-01-01T00:00:00.005Z''),
                       random1000 := (\<lambda>n. 7)\<rparr>"

definition stuckCall :: "tool \<times> env \<times> options" where
  "stuckCall = (Capture_full_screen, stuckEnv, noOpts)"

definition smallOpts :: options where
  \<comment> \<open>\<open>{x: 0, y: 0, width: 10, height: 20}\<close>\<close>
  "smallOpts = \<lparr>opt_windowTitle = None, opt_format = None, opt_quality = None,
                 opt_saveToFile = None, opt_x = Some 0, opt_y = Some 0,
                 opt_width = Some 10, opt_height = Some 20, opt_appType = None\<rparr>"

definition afterBig :: state where
  \<comment> \<open>a fresh server after a region capture of 400 by 300, the clock standing still\<close>
  "afterBig = snd (callTool Capture_region stuckEnv regionOpts initialState)"

definition afterSmall :: state where
  \<comment> \<open>and after a second region capture, of 10 by 20\<close>
  "afterSmall = snd (callTool Capture_region stuckEnv smallOpts afterBig)"

definition bigReply :: reply where
  "bigReply =
     \<lparr>r_id = ''ss_5_7'', r_timestamp = ''2024-01-01T00:00:00.005Z'', r_type = ''region'',
      r_windowTitle = None, r_windowId = None, r_region = Some (100, 100, 400, 300),
      r_format = ''png'', r_width = 400, r_height = 300,
      r_filePath = Some ''/srv/screenshots/region_100_100_400_300_2024-01-01T00-00-00-005Z.png'',
      r_base64Preview = ''base64,PNG...'', r_appType = None\<rparr>"

definition smallReply :: reply where
  "smallReply =
     \<lparr>r_id = ''ss_5_7'', r_timestamp = ''2024-01-01T00:00:00.005Z'', r_type = ''region'',
      r_windowTitle = None, r_windowId = None, r_region = Some (0, 0, 10, 20),
      r_format = ''png'', r_width = 10, r_height = 20,
      r_filePath = Some ''/srv/screenshots/region_0_0_10_20_2024-01-01T00-00-00-005Z.png'',
      r_base64Preview = ''base64,PNG...'', r_appType = None\<rparr>"

definition olderResource :: resource where
  "olderResource =
     \<lparr>s_id = ''ss_5_7'', s_timestamp = ''2024-01-01T00:00:00.005Z'', s_type = ''region'',
      s_format = ''png'', s_width = 400, s_height = 300,
      s_filePath = Some ''/srv/screenshots/region_100_100_400_300_2024-01-01T00-00-00-005Z.png'',
      s_base64 = ''base64,PNG''\<rparr>"

definition lowOpts :: options where
  \<comment> \<open>\<open>{format: 'png', quality: 80}\<close>\<close>
  "lowOpts = \<lparr>opt_windowTitle = None, opt_format = Some ''png'', opt_quality = Some 80,
               opt_saveToFile = None, opt_x = None, opt_y = None, opt_width = None,
               opt_height = None, opt_appType = None\<rparr>"

definition hasExtension :: "string \<Rightarrow> string \<Rightarrow> bool" where
  "hasExtension ext p \<longleftrightarrow> (\<exists>stem. p = stem @ ''.'' @ ext)"

definition jpegOutput :: "env \<Rightarrow> int \<Rightarrow> string \<Rightarrow> bool" where
  \<comment> \<open>\<open>out\<close> is what sharp returned for a chain of operations that ends with
      \<open>.jpeg({quality: q})\<close>: the chain of \<open>convert\<close>, or the chain of the cropping path\<close>
  "jpegOutput env q out \<longleftrightarrow>
     (\<exists>raw. sharp env [Jpeg q] raw = Inr out \<or>
            (\<exists>x y w h. sharp env [Extract x y w h, ToFormat ''png'', Jpeg q] raw = Inr out))"

definition lowPng :: "env \<Rightarrow> options \<Rightarrow> int \<Rightarrow> screenshot \<Rightarrow> state \<Rightarrow> bool" where
  "lowPng env opts q x s' \<longleftrightarrow>
     format x = ''png'' \<and> quality x = q \<and>
     (\<exists>out. jpegOutput env q out \<and> base64 x = to_base64 env out \<and>
        (saveToFileOf opts \<longrightarrow>
           (\<exists>p. filePath x = Some p \<and> hasExtension ''png'' p \<and> files s' p = Some out)))"

definition firstShot :: screenshot where
  "firstShot =
     \<lparr>shot_id = ''ss_1700000000001_7'', timestamp = ''2024-01-01T00:00:00.000Z'',
      shot_type = ''fullscreen'', windowTitle = None, windowId = None, region = None,
      format = ''png'', quality = 80, width = 1920, height = 1080,
      filePath = Some ''/srv/screenshots/fullscreen_2024-01-01T00-00-00-000Z.png'',
      base64 = ''base64,jpeg:PNG''\<rparr>"

definition godotReply :: reply where
  "godotReply =
     \<lparr>r_id = ''ss_1700000000002_14'', r_timestamp = ''2024-01-01T00:00:00.000Z'',
      r_type = ''window'', r_windowTitle = Some ''Main Scene'', r_windowId = None,
      r_region = None, r_format = ''png'', r_width = 1920, r_height = 1080,
      r_filePath = Some ''/srv/screenshots/window_Main_Scene_2024-01-01T00-00-00-000Z.png'',
      r_base64Preview = ''base64,PNG...'', r_appType = Some ''any''\<rparr>"

definition scriptPath :: "env \<Rightarrow> string" where
  \<comment> \<open>\<open>path.join(SCREENSHOT_DIR, 'getWindows.swift')\<close>\<close>
  "scriptPath env = screenshot_dir env @ ''/getWindows.swift''"

definition started :: "state \<Rightarrow> state \<Rightarrow> process list" where
  \<comment> \<open>the processes started on the way from a state to a later one\<close>
  "started st st' =
     concat (map (\<lambda>e. case e of Spawn p \<Rightarrow> [p] | _ \<Rightarrow> []) (drop (length (trace st)) (trace st')))"

definition touched :: "state \<Rightarrow> state \<Rightarrow> string list" where
  \<comment> \<open>the paths of the files written or removed on the way from a state to a later one\<close>
  "touched st st' =
     concat (map (\<lambda>e. case e of Write p \<Rightarrow> [p] | Remove p \<Rightarrow> [p] | _ \<Rightarrow> [])
               (drop (length (trace st)) (trace st')))"

definition discoveryProcesses :: "env \<Rightarrow> process set" where
  \<comment> \<open>the processes the four strategies start\<close>
  "discoveryProcesses env =
     {Chmod (scriptPath env), RunScript (scriptPath env), OsascriptWindows, ScreencaptureList,
      OsascriptProcesses}"

definition claimedRecord :: window where
  \<comment> \<open>the record the specification expects for its example line\<close>
  "claimedRecord = \<lparr>win_id = ''1234'', title = Some ''My Page'', owner_name = Some ''Safari'',
                     bounds = zeroBounds\<rparr>"

definition tempPath :: "env \<Rightarrow> nat \<Rightarrow> string" where
  \<comment> \<open>\<open>path.join(SCREENSHOT_DIR, `temp_${Date.now()}.png`)\<close> at the clock's n-th reading\<close>
  "tempPath env n = screenshot_dir env @ ''/temp_'' @ digitsOf (date_now env n) @ ''.png''"

fun runCalls :: "(tool \<times> env \<times> options) list \<Rightarrow> state \<Rightarrow> state" where
  \<comment> \<open>a sequence of tool calls, each in its own environment\<close>
  "runCalls [] st = st"
| "runCalls ((t, env, params) # calls) st = runCalls calls (snd (callTool t env params st))"

definition joinLines :: "string list \<Rightarrow> string" where
  \<comment> \<open>the text made of the given lines, a line feed between two of them\<close>
  "joinLines ls = (case ls of [] \<Rightarrow> [] | l # rest \<Rightarrow> l @ concat (map (\<lambda>m. CHR 0x0A # m) rest))"

definition grows :: "screenshot list \<Rightarrow> screenshot list \<Rightarrow> bool" where
  \<comment> \<open>the second history comes from the first by calls of \<open>addToHistory\<close>\<close>
  "grows h h' \<longleftrightarrow> (\<exists>rs. h' = foldl (\<lambda>h s. addToHistory s h) h rs)"

definition recordsOf :: "string \<Rightarrow> window list" where
  \<comment> \<open>the records of the lines of a text, as the loop over the AppleScript output builds them\<close>
  "recordsOf s = concat (map appleScriptLine (split (CHR 0x0A) s))"

definition wp ::
  "(state \<Rightarrow> (string + 'a) \<times> state) \<Rightarrow> (string + 'a \<Rightarrow> state \<Rightarrow> bool) \<Rightarrow> state \<Rightarrow> bool" where
  \<comment> \<open>the outcome of running \<open>m\<close> from \<open>st\<close>, result and final state, satisfies \<open>Q\<close>\<close>
  "wp m Q st = (case m st of (r, st') \<Rightarrow> Q r st')"

definition kept :: "string + screenshot \<Rightarrow> state \<Rightarrow> bool" where
  \<comment> \<open>what a capture that returned a record leaves: the record at the end of the history,
      and its file, if it has one, on the disk\<close>
  "kept res s' \<longleftrightarrow>
     (\<forall>x. res = Inr x \<longrightarrow>
        history s' \<noteq> [] \<and> last (history s') = x \<and> shot_id x \<noteq> [] \<and>
        (\<forall>p. filePath x = Some p \<longrightarrow> p \<noteq> [] \<and> files s' p \<noteq> None))"

fun returned :: "(tool \<times> env \<times> options) list \<Rightarrow> state \<Rightarrow> screenshot list" where
  \<comment> \<open>the records that the successful calls of a sequence return, in the order of the calls\<close>
  "returned [] st = []"
| "returned ((t, env, params) # calls) st =
     (case capture t env params st of
        (Inl e, st') \<Rightarrow> returned calls st'
      | (Inr r, st') \<Rightarrow> r # returned calls st')"

definition sameReadings :: "env \<Rightarrow> (tool \<times> env \<times> options) list \<Rightarrow> bool" where
  \<comment> \<open>every call of the sequence reads the clock and the random source of \<open>env\<close>\<close>
  "sameReadings env calls \<longleftrightarrow>
     list_all (\<lambda>(t, e, params). date_now e = date_now env \<and> random1000 e = random1000 env) calls"

definition oneAppend :: "(tool \<times> env \<times> options) list \<Rightarrow> bool" where
  \<comment> \<open>no call of the sequence is a region capture off macOS, the one capture that goes
      through another capture function\<close>
  "oneAppend calls \<longleftrightarrow>
     list_all (\<lambda>(t, e, params). t = Capture_region \<longrightarrow> platform e = ''darwin'') calls"

definition appends :: "env \<Rightarrow> state \<Rightarrow> string + screenshot \<Rightarrow> state \<Rightarrow> bool" where
  \<comment> \<open>from \<open>st\<close>, a capture that returns a record has appended it, under the id of the
      last reading taken, and a capture that throws has appended nothing\<close>
  "appends env st res s' \<longleftrightarrow>
     (\<forall>e. res = Inl e \<longrightarrow> history s' = history st \<and> tick st \<le> tick s') \<and>
     (\<forall>x. res = Inr x \<longrightarrow>
        history s' = addToHistory x (history st) \<and> tick st < tick s' \<and>
        shot_id x = idAt env (tick s' - 1))"

section \<open>What each strategy does\<close>

lemmas monad_defs = ok_def throw_def lift_def andThen_def rethrow_def

lemmas io_defs = exec_def execSync_def spawn_def writeFile_def readFile_def removeFile_def
  newDateISO_def dateNow_def generateId_def pathJoin_def

lemmas result_defs = failed_def printed_def complained_def captured_def

lemmas parser_defs = parseSwiftOutput_def swiftLine_def parseAppleScriptOutput_def
  appleScriptLine_def parseApplications_def trim_def isWhiteSpace_def elem_def parseInt_def
  isDigit_def digitsValue_def matchAt_def isLineTerminator_def zeroBounds_def
  digitsOf.simps digitChar_def

lemma swift_eval:
  "getWindowListSwift env st =
    (case write_error env (scriptPath env) of
       Some e \<Rightarrow> (Inl e, st)
     | None \<Rightarrow>
        (case perror (run env (Chmod (scriptPath env))) of
           Some e \<Rightarrow>
             (Inl e, st\<lparr>files := (files st)(scriptPath env \<mapsto> swiftScript),
                        trace := trace st @ [Write (scriptPath env), Spawn (Chmod (scriptPath env))]\<rparr>)
         | None \<Rightarrow>
            (Inr (if perror (run env (RunScript (scriptPath env))) \<noteq> None then []
                  else parseSwiftOutput (pstdout (run env (RunScript (scriptPath env))))),
             st\<lparr>files := (files st)(scriptPath env := None),
                trace := trace st @ [Write (scriptPath env), Spawn (Chmod (scriptPath env)),
                                     Spawn (RunScript (scriptPath env)), Remove (scriptPath env)]\<rparr>)))"
  by (simp add: getWindowListSwift_def monad_defs io_defs Let_def scriptPath_def split: option.splits)

lemma applescript_eval:
  "getWindowListAppleScript env st =
     (Inr (if perror (run env OsascriptWindows) \<noteq> None then []
           else parseAppleScriptOutput (pstdout (run env OsascriptWindows))),
      st\<lparr>trace := trace st @ [Spawn OsascriptWindows]\<rparr>)"
  by (simp add: getWindowListAppleScript_def monad_defs io_defs)

lemma screencapture_eval:
  "getWindowListScreencapture env st =
     (Inr (if perror (run env ScreencaptureList) \<noteq> None then []
           else parseScreencaptureOutput (pstderr (run env ScreencaptureList))),
      st\<lparr>trace := trace st @ [Spawn ScreencaptureList]\<rparr>)"
  by (simp add: getWindowListScreencapture_def monad_defs io_defs)

lemma fallback_eval:
  "getApplicationsAsFallback env st =
     (Inr (if perror (run env OsascriptProcesses) \<noteq> None then [dummyWindow]
           else parseApplications (pstdout (run env OsascriptProcesses))),
      st\<lparr>trace := trace st @ [Spawn OsascriptProcesses]\<rparr>)"
  by (simp add: getApplicationsAsFallback_def monad_defs io_defs)

lemmas strategy_evals = swift_eval applescript_eval screencapture_eval fallback_eval

lemma cascade_eval:
  "cascade env st =
     (case getWindowListSwift env st of
        (Inl e, s1) \<Rightarrow> (Inl e, s1)
      | (Inr sw, s1) \<Rightarrow>
          if sw \<noteq> [] then (Inr sw, s1)
          else (case getWindowListAppleScript env s1 of
                  (Inl e, s2) \<Rightarrow> (Inl e, s2)
                | (Inr aw, s2) \<Rightarrow>
                    if aw \<noteq> [] then (Inr aw, s2)
                    else (case getWindowListScreencapture env s2 of
                            (Inl e, s3) \<Rightarrow> (Inl e, s3)
                          | (Inr cw, s3) \<Rightarrow>
                              if cw \<noteq> [] then (Inr cw, s3)
                              else getApplicationsAsFallback env s3)))"
  by (simp add: cascade_def monad_defs fallback_eval split: prod.splits sum.splits)

lemmas discovery_defs = getWindowList_def cascade_eval strategy_evals started_def

lemmas env_defs = macEnv_def result_defs scriptPath_def initialState_def

section \<open>The cascade\<close>

text \<open>
  C2. On macOS, for each k from 1 to 4: when the strategies before the k-th return no
  window and the k-th returns a non-empty list, getWindowList returns that list as it
  is, and the processes it started are those of the strategies 1 to k only: no later
  strategy ran. (On another platform getWindowList throws before any strategy runs.)
\<close>

theorem first_nonempty_strategy_wins:
  assumes "platform env = ''darwin''"
  shows
    "(fst (getWindowListSwift env s1) = Inr ws \<and> ws \<noteq> [] \<longrightarrow>
        fst (getWindowList env st) = Inr ws \<and>
        started st (snd (getWindowList env st)) =
          [Chmod (scriptPath env), RunScript (scriptPath env)]) \<and>
     (fst (getWindowListSwift env s1) = Inr [] \<and>
      fst (getWindowListAppleScript env s2) = Inr ws \<and> ws \<noteq> [] \<longrightarrow>
        fst (getWindowList env st) = Inr ws \<and>
        started st (snd (getWindowList env st)) =
          [Chmod (scriptPath env), RunScript (scriptPath env), OsascriptWindows]) \<and>
     (fst (getWindowListSwift env s1) = Inr [] \<and>
      fst (getWindowListAppleScript env s2) = Inr [] \<and>
      fst (getWindowListScreencapture env s3) = Inr ws \<and> ws \<noteq> [] \<longrightarrow>
        fst (getWindowList env st) = Inr ws \<and>
        started st (snd (getWindowList env st)) =
          [Chmod (scriptPath env), RunScript (scriptPath env), OsascriptWindows,
           ScreencaptureList]) \<and>
     (fst (getWindowListSwift env s1) = Inr [] \<and>
      fst (getWindowListAppleScript env s2) = Inr [] \<and>
      fst (getWindowListScreencapture env s3) = Inr [] \<and>
      fst (getApplicationsAsFallback env s4) = Inr ws \<and> ws \<noteq> [] \<longrightarrow>
        fst (getWindowList env st) = Inr ws \<and>
        started st (snd (getWindowList env st)) =
          [Chmod (scriptPath env), RunScript (scriptPath env), OsascriptWindows,
           ScreencaptureList, OsascriptProcesses])"
proof -
  have k1: "fst (getWindowList env st) = Inr ws \<and>
        started st (snd (getWindowList env st)) =
          [Chmod (scriptPath env), RunScript (scriptPath env)]"
    if "fst (getWindowListSwift env s1) = Inr ws" "ws \<noteq> []"
    using that assms by (auto simp add: discovery_defs split: option.splits if_splits)
  have k2: "fst (getWindowList env st) = Inr ws \<and>
        started st (snd (getWindowList env st)) =
          [Chmod (scriptPath env), RunScript (scriptPath env), OsascriptWindows]"
    if "fst (getWindowListSwift env s1) = Inr []"
       "fst (getWindowListAppleScript env s2) = Inr ws" "ws \<noteq> []"
    using that assms by (auto simp add: discovery_defs split: option.splits if_splits)
  have k3: "fst (getWindowList env st) = Inr ws \<and>
        started st (snd (getWindowList env st)) =
          [Chmod (scriptPath env), RunScript (scriptPath env), OsascriptWindows,
           ScreencaptureList]"
    if "fst (getWindowListSwift env s1) = Inr []"
       "fst (getWindowListAppleScript env s2) = Inr []"
       "fst (getWindowListScreencapture env s3) = Inr ws" "ws \<noteq> []"
    using that assms by (auto simp add: discovery_defs split: option.splits if_splits)
  have k4: "fst (getWindowList env st) = Inr ws \<and>
        started st (snd (getWindowList env st)) =
          [Chmod (scriptPath env), RunScript (scriptPath env), OsascriptWindows,
           ScreencaptureList, OsascriptProcesses]"
    if "fst (getWindowListSwift env s1) = Inr []"
       "fst (getWindowListAppleScript env s2) = Inr []"
       "fst (getWindowListScreencapture env s3) = Inr []"
       "fst (getApplicationsAsFallback env s4) = Inr ws" "ws \<noteq> []"
    using that assms by (auto simp add: discovery_defs split: option.splits if_splits)
  from k1 k2 k3 k4 show ?thesis by blast
qed

theorem first_nonempty_strategy_wins_witness:
  "(platform swiftEnv = ''darwin'' \<and>
    fst (getWindowListSwift swiftEnv initialState) =
      Inr [\<lparr>win_id = ''1234'', title = Some ''My Page'', owner_name = Some ''Safari'',
            bounds = Some \<lparr>rect_x = Some 0, rect_y = Some 25, rect_width = Some 800,
                            rect_height = Some 600\<rparr>\<rparr>] \<and>
    fst (getWindowList swiftEnv initialState) = fst (getWindowListSwift swiftEnv initialState) \<and>
    started initialState (snd (getWindowList swiftEnv initialState)) =
      [Chmod ''/srv/screenshots/getWindows.swift'', RunScript ''/srv/screenshots/getWindows.swift'']) \<and>
   (platform appleScriptEnv = ''darwin'' \<and>
    fst (getWindowListSwift appleScriptEnv initialState) = Inr [] \<and>
    fst (getWindowListAppleScript appleScriptEnv initialState) = Inr [claimedRecord] \<and>
    fst (getWindowList appleScriptEnv initialState) = Inr [claimedRecord] \<and>
    started initialState (snd (getWindowList appleScriptEnv initialState)) =
      [Chmod ''/srv/screenshots/getWindows.swift'', RunScript ''/srv/screenshots/getWindows.swift'',
       OsascriptWindows]) \<and>
   (platform listingEnv = ''darwin'' \<and>
    fst (getWindowListSwift listingEnv initialState) = Inr [] \<and>
    fst (getWindowListAppleScript listingEnv initialState) = Inr [] \<and>
    fst (getWindowListScreencapture listingEnv initialState) =
      Inr [\<lparr>win_id = ''12'', title = Some ''Safari Home'', owner_name = Some ''Safari'',
            bounds = zeroBounds\<rparr>] \<and>
    fst (getWindowList listingEnv initialState) =
      fst (getWindowListScreencapture listingEnv initialState) \<and>
    started initialState (snd (getWindowList listingEnv initialState)) =
      [Chmod ''/srv/screenshots/getWindows.swift'', RunScript ''/srv/screenshots/getWindows.swift'',
       OsascriptWindows, ScreencaptureList]) \<and>
   (platform processEnv = ''darwin'' \<and>
    fst (getWindowListSwift processEnv initialState) = Inr [] \<and>
    fst (getWindowListAppleScript processEnv initialState) = Inr [] \<and>
    fst (getWindowListScreencapture processEnv initialState) = Inr [] \<and>
    fst (getApplicationsAsFallback processEnv initialState) =
      Inr [\<lparr>win_id = ''app_0'', title = Some ''Finder Window'', owner_name = Some ''Finder'',
            bounds = zeroBounds\<rparr>,
           \<lparr>win_id = ''app_1'', title = Some ''Safari Window'', owner_name = Some ''Safari'',
            bounds = zeroBounds\<rparr>] \<and>
    fst (getWindowList processEnv initialState) =
      fst (getApplicationsAsFallback processEnv initialState) \<and>
    started initialState (snd (getWindowList processEnv initialState)) =
      [Chmod ''/srv/screenshots/getWindows.swift'', RunScript ''/srv/screenshots/getWindows.swift'',
       OsascriptWindows, ScreencaptureList, OsascriptProcesses])"
proof -
  let ?w1 = "[\<lparr>win_id = ''1234'', title = Some ''My Page'', owner_name = Some ''Safari'',
            bounds = Some \<lparr>rect_x = Some 0, rect_y = Some 25, rect_width = Some 800,
                            rect_height = Some 600\<rparr>\<rparr>]"
  let ?w3 = "[\<lparr>win_id = ''12'', title = Some ''Safari Home'', owner_name = Some ''Safari'',
            bounds = zeroBounds\<rparr>]"
  let ?w4 = "[\<lparr>win_id = ''app_0'', title = Some ''Finder Window'', owner_name = Some ''Finder'',
            bounds = zeroBounds\<rparr>,
           \<lparr>win_id = ''app_1'', title = Some ''Safari Window'', owner_name = Some ''Safari'',
            bounds = zeroBounds\<rparr>]"
  have p1: "platform swiftEnv = ''darwin''" and p2: "platform appleScriptEnv = ''darwin''"
    and p3: "platform listingEnv = ''darwin''" and p4: "platform processEnv = ''darwin''"
    by (simp_all add: swiftEnv_def appleScriptEnv_def listingEnv_def processEnv_def env_defs)
  have a1: "fst (getWindowListSwift swiftEnv initialState) = Inr ?w1"
    by (simp add: swiftEnv_def env_defs swift_eval parser_defs)
  have b1: "fst (getWindowListSwift appleScriptEnv initialState) = Inr []"
    and b2: "fst (getWindowListAppleScript appleScriptEnv initialState) = Inr [claimedRecord]"
    by (simp_all add: appleScriptEnv_def env_defs swift_eval applescript_eval parser_defs
          claimedRecord_def)
  have c1: "fst (getWindowListSwift listingEnv initialState) = Inr []"
    and c2: "fst (getWindowListAppleScript listingEnv initialState) = Inr []"
    and c3: "fst (getWindowListScreencapture listingEnv initialState) = Inr ?w3"
    by (simp_all add: listingEnv_def env_defs swift_eval applescript_eval screencapture_eval
          parser_defs)
  have d1: "fst (getWindowListSwift processEnv initialState) = Inr []"
    and d2: "fst (getWindowListAppleScript processEnv initialState) = Inr []"
    and d3: "fst (getWindowListScreencapture processEnv initialState) = Inr []"
    and d4: "fst (getApplicationsAsFallback processEnv initialState) = Inr ?w4"
    by (simp_all add: processEnv_def env_defs strategy_evals parser_defs)
  have s: "scriptPath swiftEnv = ''/srv/screenshots/getWindows.swift''"
    "scriptPath appleScriptEnv = ''/srv/screenshots/getWindows.swift''"
    "scriptPath listingEnv = ''/srv/screenshots/getWindows.swift''"
    "scriptPath processEnv = ''/srv/screenshots/getWindows.swift''"
    by (simp_all add: swiftEnv_def appleScriptEnv_def listingEnv_def processEnv_def env_defs)
  note t1 = first_nonempty_strategy_wins [OF p1, where ws = ?w1 and st = initialState
              and ?s1.0 = initialState]
  note t2 = first_nonempty_strategy_wins [OF p2, where ws = "[claimedRecord]"
              and st = initialState and ?s1.0 = initialState and ?s2.0 = initialState]
  note t3 = first_nonempty_strategy_wins [OF p3, where ws = ?w3 and st = initialState
              and ?s1.0 = initialState and ?s2.0 = initialState and ?s3.0 = initialState]
  note t4 = first_nonempty_strategy_wins [OF p4, where ws = ?w4 and st = initialState
              and ?s1.0 = initialState and ?s2.0 = initialState and ?s3.0 = initialState
              and ?s4.0 = initialState]
  from t1 a1 s(1) have r1: "fst (getWindowList swiftEnv initialState) = Inr ?w1 \<and>
      started initialState (snd (getWindowList swiftEnv initialState)) =
        [Chmod ''/srv/screenshots/getWindows.swift'', RunScript ''/srv/screenshots/getWindows.swift'']"
    by simp
  from t2 b1 b2 s(2) have r2: "fst (getWindowList appleScriptEnv initialState) = Inr [claimedRecord] \<and>
      started initialState (snd (getWindowList appleScriptEnv initialState)) =
        [Chmod ''/srv/screenshots/getWindows.swift'', RunScript ''/srv/screenshots/getWindows.swift'',
         OsascriptWindows]"
    by simp
  from t3 c1 c2 c3 s(3) have r3: "fst (getWindowList listingEnv initialState) = Inr ?w3 \<and>
      started initialState (snd (getWindowList listingEnv initialState)) =
        [Chmod ''/srv/screenshots/getWindows.swift'', RunScript ''/srv/screenshots/getWindows.swift'',
         OsascriptWindows, ScreencaptureList]"
    by simp
  from t4 d1 d2 d3 d4 s(4) have r4: "fst (getWindowList processEnv initialState) = Inr ?w4 \<and>
      started initialState (snd (getWindowList processEnv initialState)) =
        [Chmod ''/srv/screenshots/getWindows.swift'', RunScript ''/srv/screenshots/getWindows.swift'',
         OsascriptWindows, ScreencaptureList, OsascriptProcesses]"
    by simp
  show ?thesis
    using p1 p2 p3 p4 a1 b1 b2 c1 c2 c3 d1 d2 d3 d4 r1 r2 r3 r4 by simp
qed

text \<open>
  C1. The claim: when all four strategies return no window, getWindowList returns exactly
  one sentinel record. The code: getWindowList returns what the last strategy returns. The
  last strategy returns the sentinel record only when its process query fails; when the
  query succeeds and names no process, all four strategies return the empty list and so
  does getWindowList.
\<close>

theorem all_strategies_empty_counterexample:
  "fst (getWindowListSwift quietEnv initialState) = Inr [] \<and>
   fst (getWindowListAppleScript quietEnv initialState) = Inr [] \<and>
   fst (getWindowListScreencapture quietEnv initialState) = Inr [] \<and>
   fst (getApplicationsAsFallback quietEnv initialState) = Inr [] \<and>
   fst (getWindowList quietEnv initialState) = Inr []"
  by (simp add: quietEnv_def env_defs discovery_defs parser_defs)

text \<open>
  C1, amended. On macOS, when the first three strategies return no window, getWindowList
  returns what the last strategy returns: exactly the sentinel record when the process
  query fails, and the records of the listed processes when it succeeds.
\<close>

theorem cascade_ends_with_last_strategy:
  assumes "platform env = ''darwin''"
    and "fst (getWindowListSwift env s1) = Inr []"
    and "fst (getWindowListAppleScript env s2) = Inr []"
    and "fst (getWindowListScreencapture env s3) = Inr []"
  shows "fst (getWindowList env st) = fst (getApplicationsAsFallback env s4) \<and>
         (perror (run env OsascriptProcesses) \<noteq> None \<longrightarrow>
            fst (getWindowList env st) = Inr [dummyWindow]) \<and>
         (perror (run env OsascriptProcesses) = None \<longrightarrow>
            fst (getWindowList env st) = Inr (parseApplications (pstdout (run env OsascriptProcesses))))"
  using assms by (auto simp add: discovery_defs split: option.splits if_splits)

theorem cascade_ends_with_last_strategy_witness:
  "platform deniedEnv = ''darwin'' \<and>
   fst (getWindowListSwift deniedEnv initialState) = Inr [] \<and>
   fst (getWindowListAppleScript deniedEnv initialState) = Inr [] \<and>
   fst (getWindowListScreencapture deniedEnv initialState) = Inr [] \<and>
   perror (run deniedEnv OsascriptProcesses) \<noteq> None \<and>
   fst (getWindowList deniedEnv initialState) = Inr [dummyWindow]"
proof -
  have p: "platform deniedEnv = ''darwin''"
    and e: "perror (run deniedEnv OsascriptProcesses) \<noteq> None"
    by (simp_all add: deniedEnv_def env_defs)
  have a: "fst (getWindowListSwift deniedEnv initialState) = Inr []"
    and b: "fst (getWindowListAppleScript deniedEnv initialState) = Inr []"
    and c: "fst (getWindowListScreencapture deniedEnv initialState) = Inr []"
    by (simp_all add: deniedEnv_def env_defs strategy_evals)
  from cascade_ends_with_last_strategy [OF p a b c, of initialState initialState] e
  have "fst (getWindowList deniedEnv initialState) = Inr [dummyWindow]" by blast
  with p e a b c show ?thesis by simp
qed

section \<open>The parsers\<close>

text \<open>
  C3. The claim: the line \<open>1234|Safari|My Page\<close> gives the record with id 1234, owner
  Safari, title My Page and zero bounds. The code: the parser of the AppleScript output
  reads owner, title, id in this order, so it gives id "My Page", title "Safari" and
  owner "1234"; the parser of the Swift output reads id, owner, title and then four
  numbers, so it gives the three names but bounds that are not numbers.
\<close>

theorem example_line_counterexample:
  "parseAppleScriptOutput ''1234|Safari|My Page'' =
     [\<lparr>win_id = ''My Page'', title = Some ''Safari'', owner_name = Some ''1234'',
       bounds = zeroBounds\<rparr>] \<and>
   parseAppleScriptOutput ''1234|Safari|My Page'' \<noteq> [claimedRecord] \<and>
   parseSwiftOutput ''1234|Safari|My Page'' =
     [\<lparr>win_id = ''1234'', title = Some ''My Page'', owner_name = Some ''Safari'',
       bounds = Some \<lparr>rect_x = None, rect_y = None, rect_width = None, rect_height = None\<rparr>\<rparr>] \<and>
   parseSwiftOutput ''1234|Safari|My Page'' \<noteq> [claimedRecord]"
  by (simp add: parser_defs claimedRecord_def)

text \<open>
  C3, amended. With the fields in the order each script prints them, the example gives
  exactly the expected record: the line \<open>Safari|My Page|1234\<close> of the AppleScript output,
  and the line \<open>1234|Safari|My Page|0|0|0|0\<close> of the Swift output.
\<close>

theorem example_line_in_script_order:
  "parseAppleScriptOutput ''Safari|My Page|1234'' = [claimedRecord] \<and>
   parseSwiftOutput ''1234|Safari|My Page|0|0|0|0'' = [claimedRecord]"
  by (simp add: parser_defs claimedRecord_def)

section \<open>Running an effectful function step by step\<close>

text \<open>
  One equation per primitive: what \<open>wp\<close> of it asks of the rest of the run. With them
  the simplifier walks through a capture function along its paths.
\<close>

lemma wp_ok [simp]: "wp (ok x) Q st = Q (Inr x) st"
  by (simp add: wp_def ok_def)

lemma wp_throw [simp]: "wp (throw e) Q st = Q (Inl e) st"
  by (simp add: wp_def throw_def)

lemma wp_lift [simp]: "wp (lift r) Q st = Q r st"
  by (simp add: wp_def lift_def)

lemma wp_andThen [simp]:
  "wp (andThen m f) Q st =
     wp m (\<lambda>r st'. (\<forall>e. r = Inl e \<longrightarrow> Q (Inl e) st') \<and> (\<forall>x. r = Inr x \<longrightarrow> wp (f x) Q st')) st"
  by (auto simp add: wp_def andThen_def split: prod.splits sum.splits)

lemma wp_rethrow [simp]:
  "wp (rethrow p m) Q st =
     wp m (\<lambda>r st'. (\<forall>e. r = Inl e \<longrightarrow> Q (Inl (p @ e)) st') \<and> (\<forall>x. r = Inr x \<longrightarrow> Q (Inr x) st')) st"
  by (auto simp add: wp_def rethrow_def split: prod.splits sum.splits)

lemma wp_execSync [simp]:
  "wp (execSync env p) Q st =
     ((\<forall>e. perror (run env p) = Some e \<longrightarrow> Q (Inl e) (spawn env p st)) \<and>
      (perror (run env p) = None \<longrightarrow> Q (Inr ()) (spawn env p st)))"
  by (simp add: wp_def execSync_def split: option.splits)

lemma wp_exec [simp]: "wp (exec env p) Q st = Q (Inr (run env p)) (spawn env p st)"
  by (simp add: wp_def exec_def)

lemma wp_writeFile [simp]:
  "wp (writeFile env path c) Q st =
     ((\<forall>e. write_error env path = Some e \<longrightarrow> Q (Inl e) st) \<and>
      (write_error env path = None \<longrightarrow>
         Q (Inr ()) (st\<lparr>files := (files st)(path \<mapsto> c), trace := trace st @ [Write path]\<rparr>)))"
  by (simp add: wp_def writeFile_def split: option.splits)

lemma wp_readFile [simp]:
  "wp (readFile path) Q st =
     ((files st path = None \<longrightarrow>
         Q (Inl (''ENOENT: no such file or directory, open '' @ path)) st) \<and>
      (\<forall>c. files st path = Some c \<longrightarrow> Q (Inr c) st))"
  by (simp add: wp_def readFile_def split: option.splits)

lemma wp_removeFile [simp]:
  "wp (removeFile path) Q st =
     Q (Inr ()) (st\<lparr>files := (files st)(path := None), trace := trace st @ [Remove path]\<rparr>)"
  by (simp add: wp_def removeFile_def)

lemma wp_newDateISO [simp]:
  "wp (newDateISO env) Q st = Q (Inr (iso_string env (tick st))) (st\<lparr>tick := Suc (tick st)\<rparr>)"
  by (simp add: wp_def newDateISO_def)

lemma wp_dateNow [simp]:
  "wp (dateNow env) Q st = Q (Inr (date_now env (tick st))) (st\<lparr>tick := Suc (tick st)\<rparr>)"
  by (simp add: wp_def dateNow_def)

lemma wp_generateId [simp]:
  "wp (generateId env) Q st =
     Q (Inr (''ss_'' @ digitsOf (date_now env (tick st)) @ ''_''
             @ digitsOf (random1000 env (tick st) mod 1000)))
       (st\<lparr>tick := Suc (tick st)\<rparr>)"
  by (simp add: wp_def generateId_def)

lemma wp_remember [simp]:
  "wp (remember s) Q st = Q (Inr ()) (st\<lparr>history := addToHistory s (history st)\<rparr>)"
  by (simp add: wp_def remember_def)

lemma wp_convert [simp]:
  "wp (convert env fmt q buf) Q st =
     (if fmt = ''jpg'' \<or> q < 100 then Q (sharp env [Jpeg q] buf) st else Q (Inr buf) st)"
  by (simp add: convert_def)

lemma wp_case_option [simp]:
  "wp (case v of None \<Rightarrow> m | Some y \<Rightarrow> f y) Q st =
     ((v = None \<longrightarrow> wp m Q st) \<and> (\<forall>y. v = Some y \<longrightarrow> wp (f y) Q st))"
  by (cases v) simp_all

lemma wp_known: "m st = (r, s1) \<Longrightarrow> wp m Q st = Q r s1"
  by (simp add: wp_def)

lemma wpD: "wp m Q st \<Longrightarrow> Q (fst (m st)) (snd (m st))"
  by (simp add: wp_def split: prod.splits)

lemma spawn_simps [simp]:
  "history (spawn env p st) = history st"
  "tick (spawn env p st) = tick st"
  "trace (spawn env p st) = trace st @ [Spawn p]"
  by (simp_all add: spawn_def)

lemmas capture_defs = captureFullScreen_def captureWindow_def captureRegion_def Let_def
  pathJoin_def case_prod_beta

lemma callTool_eq:
  "callTool t env params st =
     (case fst (capture t env params st) of
        Inl e \<Rightarrow> Failure e
      | Inr r \<Rightarrow> Success (answer t params r),
      snd (capture t env params st))"
  by (simp add: callTool_def handler_def split: prod.splits sum.splits)

lemma answer_fields [simp]:
  "r_id (answer t params r) = shot_id r"
  "r_format (answer t params r) = format r"
  "r_width (answer t params r) = width r"
  "r_height (answer t params r) = height r"
  by (cases t; simp add: replyOf_def)+

section \<open>Validation of a region\<close>

text \<open>
  C8. A call of capture_region that lacks one of x, y, width, height answers
  \<open>{success: false, error}\<close> with the validation message and leaves the state as it
  was: no process started, no file written, the history unchanged. With all four
  present the answer is never the validation error, and on macOS the capture is
  attempted: the one process started is the region capture.
\<close>

theorem region_needs_all_four_coordinates:
  "(opt_x opts = None \<or> opt_y opts = None \<or> opt_width opts = None \<or> opt_height opts = None \<longrightarrow>
      callTool Capture_region env opts st =
        (Failure ''Region coordinates (x, y, width, height) are required'', st)) \<and>
   (opt_x opts = Some x \<and> opt_y opts = Some y \<and> opt_width opts = Some w \<and> opt_height opts = Some h \<longrightarrow>
      fst (callTool Capture_region env opts st) \<noteq>
        Failure ''Region coordinates (x, y, width, height) are required'' \<and>
      (platform env = ''darwin'' \<longrightarrow>
         started st (snd (callTool Capture_region env opts st)) =
           [ScreencaptureRegion x y w h (tempPath env (tick st))]))"
proof -
  let ?msg = "''Region coordinates (x, y, width, height) are required''"
  have missing: "captureRegion env opts st = (Inl ?msg, st)"
    if "opt_x opts = None \<or> opt_y opts = None \<or> opt_width opts = None \<or> opt_height opts = None"
    using that
    by (cases "opt_x opts"; cases "opt_y opts"; cases "opt_width opts"; cases "opt_height opts";
        simp add: captureRegion_def throw_def Let_def)
  have present: "fst (captureRegion env opts st) \<noteq> Inl ?msg \<and>
      (platform env = ''darwin'' \<longrightarrow>
         started st (snd (captureRegion env opts st)) =
           [ScreencaptureRegion x y w h (tempPath env (tick st))])"
    if "opt_x opts = Some x" "opt_y opts = Some y" "opt_width opts = Some w" "opt_height opts = Some h"
  proof -
    have "wp (captureRegion env opts)
            (\<lambda>res st'. res \<noteq> Inl ?msg \<and>
               (platform env = ''darwin'' \<longrightarrow>
                  started st st' = [ScreencaptureRegion x y w h (tempPath env (tick st))])) st"
      using that by (simp add: capture_defs started_def tempPath_def)
    then show ?thesis by (rule wpD)
  qed
  show ?thesis
    using missing present by (auto simp add: callTool_eq split: sum.splits)
qed

theorem region_needs_all_four_coordinates_witness:
  "opt_width (regionOpts\<lparr>opt_width := None\<rparr>) = None \<and>
   callTool Capture_region quietEnv (regionOpts\<lparr>opt_width := None\<rparr>) initialState =
     (Failure ''Region coordinates (x, y, width, height) are required'', initialState) \<and>
   opt_x regionOpts = Some 100 \<and> opt_y regionOpts = Some 100 \<and>
   opt_width regionOpts = Some 400 \<and> opt_height regionOpts = Some 300 \<and>
   platform quietEnv = ''darwin'' \<and>
   fst (callTool Capture_region quietEnv regionOpts initialState) \<noteq>
     Failure ''Region coordinates (x, y, width, height) are required'' \<and>
   started initialState (snd (callTool Capture_region quietEnv regionOpts initialState)) =
     [ScreencaptureRegion 100 100 400 300 ''/srv/screenshots/temp_1700000000000.png'']"
proof -
  have a: "opt_width (regionOpts\<lparr>opt_width := None\<rparr>) = None" by simp
  have b: "opt_x regionOpts = Some 100 \<and> opt_y regionOpts = Some 100 \<and>
           opt_width regionOpts = Some 400 \<and> opt_height regionOpts = Some 300"
    by (simp add: regionOpts_def)
  have c: "platform quietEnv = ''darwin''"
    and d: "tempPath quietEnv (tick initialState) = ''/srv/screenshots/temp_1700000000000.png''"
    by (simp_all add: quietEnv_def env_defs tempPath_def digitsOf.simps digitChar_def)
  from a region_needs_all_four_coordinates
         [of "regionOpts\<lparr>opt_width := None\<rparr>" quietEnv initialState]
  have e: "callTool Capture_region quietEnv (regionOpts\<lparr>opt_width := None\<rparr>) initialState =
     (Failure ''Region coordinates (x, y, width, height) are required'', initialState)"
    by blast
  from b c d region_needs_all_four_coordinates [of regionOpts quietEnv initialState 100 100 400 300]
  have f: "fst (callTool Capture_region quietEnv regionOpts initialState) \<noteq>
     Failure ''Region coordinates (x, y, width, height) are required'' \<and>
   started initialState (snd (callTool Capture_region quietEnv regionOpts initialState)) =
     [ScreencaptureRegion 100 100 400 300 ''/srv/screenshots/temp_1700000000000.png'']"
    by simp
  from a b c e f show ?thesis by simp
qed

section \<open>Capturing a window\<close>

lemma cascade_frame:
  "wp (cascade env) (\<lambda>r s'. history s' = history st \<and> tick s' = tick st) st"
  by (simp add: cascade_def getWindowListSwift_def getWindowListAppleScript_def
        getWindowListScreencapture_def getApplicationsAsFallback_def Let_def)

lemma getWindowList_frame:
  assumes "getWindowList env st = (r, s1)"
  shows "history s1 = history st \<and> tick s1 = tick st"
proof -
  from cascade_frame [of env st]
  have "history (snd (cascade env st)) = history st \<and> tick (snd (cascade env st)) = tick st"
    by (rule wpD)
  with assms show ?thesis
    by (auto simp add: getWindowList_def throw_def split: if_splits prod.splits sum.splits)
qed

lemma cascade_effects:
  "wp (cascade env)
     (\<lambda>r s'. set (started st s') \<subseteq> discoveryProcesses env \<and>
              set (touched st s') \<subseteq> {scriptPath env} \<and>
              (\<forall>p. p \<noteq> scriptPath env \<longrightarrow> files s' p = files st p)) st"
  by (simp add: cascade_def getWindowListSwift_def getWindowListAppleScript_def
        getWindowListScreencapture_def getApplicationsAsFallback_def Let_def started_def
        touched_def discoveryProcesses_def scriptPath_def pathJoin_def spawn_def)

lemma getWindowList_effects:
  assumes "getWindowList env st = (r, s1)"
  shows "set (started st s1) \<subseteq> discoveryProcesses env \<and>
         set (touched st s1) \<subseteq> {scriptPath env} \<and>
         (\<forall>p. p \<noteq> scriptPath env \<longrightarrow> files s1 p = files st p)"
proof -
  from cascade_effects [of env st]
  have "set (started st (snd (cascade env st))) \<subseteq> discoveryProcesses env \<and>
        set (touched st (snd (cascade env st))) \<subseteq> {scriptPath env} \<and>
        (\<forall>p. p \<noteq> scriptPath env \<longrightarrow> files (snd (cascade env st)) p = files st p)"
    by (rule wpD)
  with assms show ?thesis
    by (auto simp add: getWindowList_def throw_def started_def touched_def
          split: if_splits prod.splits sum.splits)
qed

lemma wp_getWindowList:
  "getWindowList env st = (r, s1) \<Longrightarrow> wp (getWindowList env) Q st = Q r s1"
  by (rule wp_known)

lemma getWindowList_darwin:
  "getWindowList env st = (Inr ws, s1) \<Longrightarrow> platform env = ''darwin''"
  by (auto simp add: getWindowList_def throw_def split: if_splits)

text \<open>
  C7. The claim: with a title that no discovered window contains, capture_window answers
  with the not-found error, starts no capture tool and creates no temporary file. The
  code: discovery runs before the title is looked for. Below, discovery writes and removes
  its helper script in the screenshot directory and, the first two strategies finding
  nothing, starts the capture tool in its list mode; the third strategy finds one window,
  "Safari Home", and the title asked for is "Godot".
\<close>

theorem unknown_title_counterexample:
  "callTool Capture_window listingEnv (windowOpts ''Godot'') initialState =
     (Failure (''Failed to capture window: Window with title '' @ [CHR 0x22] @ ''Godot''
               @ [CHR 0x22] @ '' not found''),
      initialState\<lparr>trace :=
        [Write ''/srv/screenshots/getWindows.swift'',
         Spawn (Chmod ''/srv/screenshots/getWindows.swift''),
         Spawn (RunScript ''/srv/screenshots/getWindows.swift''),
         Remove ''/srv/screenshots/getWindows.swift'',
         Spawn OsascriptWindows,
         Spawn ScreencaptureList]\<rparr>)"
proof -
  have "wp (captureWindow listingEnv (windowOpts ''Godot''))
          (\<lambda>r s'. r = Inl (''Failed to capture window: Window with title '' @ [CHR 0x22]
                            @ ''Godot'' @ [CHR 0x22] @ '' not found'') \<and>
                   s' = initialState\<lparr>trace :=
                          [Write ''/srv/screenshots/getWindows.swift'',
                           Spawn (Chmod ''/srv/screenshots/getWindows.swift''),
                           Spawn (RunScript ''/srv/screenshots/getWindows.swift''),
                           Remove ''/srv/screenshots/getWindows.swift'',
                           Spawn OsascriptWindows,
                           Spawn ScreencaptureList]\<rparr>)
          initialState"
    by (simp add: wp_def captureWindow_def windowOpts_def formatOf_def qualityOf_def
          saveToFileOf_def Let_def getWindowList_def cascade_eval strategy_evals monad_defs
          listingEnv_def env_defs parser_defs matchesTitle_def notFound_def)
  then show ?thesis
    by (simp add: wp_def callTool_def handler_def split: prod.splits sum.splits)
qed

text \<open>
  C7, amended. When a title is given and no window that discovery returns contains it,
  capture_window answers \<open>{success: false, error}\<close> with the not-found message and ends
  in the state discovery left. Over the whole call the history is unchanged, the only
  processes started are among those of discovery (chmod of the helper script, the helper
  script, the two osascript queries, \<open>screencapture -lc\<close>), so no capture is taken, and
  the only file written or removed is the helper script of discovery, every other file
  being as it was, so no temporary image is created.
\<close>

theorem unknown_title_stops_after_discovery:
  assumes "opt_windowTitle opts = Some t" and "t \<noteq> []"
    and "getWindowList env st = (Inr ws, s1)"
    and "\<forall>w \<in> set ws. \<forall>tt. title w = Some tt \<longrightarrow> \<not> includesStr tt t"
  shows "callTool Capture_window env opts st =
           (Failure (''Failed to capture window: Window with title '' @ [CHR 0x22] @ t
                     @ [CHR 0x22] @ '' not found''), s1) \<and>
         history s1 = history st \<and>
         set (started st s1) \<subseteq> discoveryProcesses env \<and>
         set (touched st s1) \<subseteq> {scriptPath env} \<and>
         (\<forall>p. p \<noteq> scriptPath env \<longrightarrow> files s1 p = files st p)"
proof -
  have none: "find (matchesTitle t) ws = None"
    using assms(4) by (auto simp add: find_None_iff matchesTitle_def split: option.splits)
  have "wp (captureWindow env opts)
          (\<lambda>r s'. r = Inl (''Failed to capture window: Window with title '' @ [CHR 0x22] @ t
                            @ [CHR 0x22] @ '' not found'') \<and> s' = s1) st"
    using assms(1,2) none
    by (simp add: captureWindow_def Let_def wp_getWindowList [OF assms(3)] notFound_def)
  then have "captureWindow env opts st =
      (Inl (''Failed to capture window: Window with title '' @ [CHR 0x22] @ t
            @ [CHR 0x22] @ '' not found''), s1)"
    by (simp add: wp_def split: prod.splits)
  moreover have "history s1 = history st"
    using getWindowList_frame [OF assms(3)] by simp
  moreover note getWindowList_effects [OF assms(3)]
  ultimately show ?thesis
    by (simp add: callTool_def handler_def)
qed

theorem unknown_title_stops_after_discovery_witness:
  "opt_windowTitle (windowOpts ''Godot'') = Some ''Godot'' \<and> ''Godot'' \<noteq> [] \<and>
   getWindowList listingEnv initialState =
     (Inr [\<lparr>win_id = ''12'', title = Some ''Safari Home'', owner_name = Some ''Safari'',
           bounds = zeroBounds\<rparr>],
      initialState\<lparr>trace :=
        [Write ''/srv/screenshots/getWindows.swift'',
         Spawn (Chmod ''/srv/screenshots/getWindows.swift''),
         Spawn (RunScript ''/srv/screenshots/getWindows.swift''),
         Remove ''/srv/screenshots/getWindows.swift'',
         Spawn OsascriptWindows,
         Spawn ScreencaptureList]\<rparr>) \<and>
   \<not> includesStr ''Safari Home'' ''Godot'' \<and>
   fst (callTool Capture_window listingEnv (windowOpts ''Godot'') initialState) =
     Failure (''Failed to capture window: Window with title '' @ [CHR 0x22] @ ''Godot''
              @ [CHR 0x22] @ '' not found'') \<and>
   history (snd (callTool Capture_window listingEnv (windowOpts ''Godot'') initialState)) = []"
proof -
  let ?ws = "[\<lparr>win_id = ''12'', title = Some ''Safari Home'', owner_name = Some ''Safari'',
           bounds = zeroBounds\<rparr>]"
  let ?s1 = "initialState\<lparr>trace :=
        [Write ''/srv/screenshots/getWindows.swift'',
         Spawn (Chmod ''/srv/screenshots/getWindows.swift''),
         Spawn (RunScript ''/srv/screenshots/getWindows.swift''),
         Remove ''/srv/screenshots/getWindows.swift'',
         Spawn OsascriptWindows,
         Spawn ScreencaptureList]\<rparr>"
  have a: "opt_windowTitle (windowOpts ''Godot'') = Some ''Godot''"
    by (simp add: windowOpts_def)
  have b: "''Godot'' \<noteq> []" by simp
  have c: "getWindowList listingEnv initialState = (Inr ?ws, ?s1)"
    by (simp add: getWindowList_def cascade_eval strategy_evals listingEnv_def env_defs
          parser_defs)
  have d: "\<not> includesStr ''Safari Home'' ''Godot''" by simp
  then have e: "\<forall>w \<in> set ?ws. \<forall>tt. title w = Some tt \<longrightarrow> \<not> includesStr tt ''Godot''"
    by simp
  from unknown_title_stops_after_discovery [OF a b c e]
  have "fst (callTool Capture_window listingEnv (windowOpts ''Godot'') initialState) =
     Failure (''Failed to capture window: Window with title '' @ [CHR 0x22] @ ''Godot''
              @ [CHR 0x22] @ '' not found'') \<and>
   history (snd (callTool Capture_window listingEnv (windowOpts ''Godot'') initialState)) = []"
    by (simp add: initialState_def)
  with a b c d show ?thesis by simp
qed

text \<open>
  C5. Let capture_window have selected a target: discovery returned windows and the
  target is the first whose title contains the title asked for. Then the one process
  started after discovery is the capture: a full-screen capture, with no window id, when
  the target's id starts with \<open>app_\<close>, and a capture with the \<open>-l\<close> flag set to the
  target's id otherwise. The \<open>app_\<close> branch raises no error of its own: when the
  full-screen capture leaves an image and neither sharp nor the disk fails, the call
  returns a record of the window.
\<close>

theorem window_capture_dispatch:
  assumes "opt_windowTitle opts = Some t" and "t \<noteq> []"
    and "getWindowList env st = (Inr ws, s1)"
    and "find (matchesTitle t) ws = Some target"
  shows
    "(startsWith (win_id target) ''app_'' \<longrightarrow>
        started s1 (snd (captureWindow env opts st)) =
          [ScreencaptureFull (tempPath env (Suc (tick st)))]) \<and>
     (\<not> startsWith (win_id target) ''app_'' \<longrightarrow>
        started s1 (snd (captureWindow env opts st)) =
          [ScreencaptureWindow (win_id target) (tempPath env (Suc (tick st)))]) \<and>
     (startsWith (win_id target) ''app_'' \<and>
      perror (run env (ScreencaptureFull (tempPath env (Suc (tick st))))) = None \<and>
      pfile (run env (ScreencaptureFull (tempPath env (Suc (tick st))))) \<noteq> None \<and>
      (\<forall>buf. \<exists>out. sharp env [Jpeg (qualityOf opts)] buf = Inr out) \<and>
      (\<forall>buf. \<exists>m. sharp_metadata env buf = Inr m) \<and>
      (\<forall>p. write_error env p = None) \<longrightarrow>
        (\<exists>r. fst (captureWindow env opts st) = Inr r \<and>
             windowId r = Some (win_id target) \<and> shot_type r = ''window''))"
proof -
  note frame = getWindowList_frame [OF assms(3)]
  note darwin = getWindowList_darwin [OF assms(3)]
  let ?tmp = "tempPath env (Suc (tick st))"
  have cmd: "wp (captureWindow env opts)
          (\<lambda>r s'. started s1 s' = [captureCommand target ?tmp]) st"
    using assms(1,2,4) frame darwin
    by (simp add: captureWindow_def Let_def pathJoin_def case_prod_beta
          wp_getWindowList [OF assms(3)] started_def tempPath_def)
  have started: "started s1 (snd (captureWindow env opts st)) = [captureCommand target ?tmp]"
    using cmd by (rule wpD)
  have success: "\<exists>r. fst (captureWindow env opts st) = Inr r \<and>
             windowId r = Some (win_id target) \<and> shot_type r = ''window''"
    if app: "startsWith (win_id target) ''app_''"
      and ran: "perror (run env (ScreencaptureFull ?tmp)) = None"
      and left: "pfile (run env (ScreencaptureFull ?tmp)) \<noteq> None"
      and jpeg: "\<forall>buf. \<exists>out. sharp env [Jpeg (qualityOf opts)] buf = Inr out"
      and meta: "\<forall>buf. \<exists>m. sharp_metadata env buf = Inr m"
      and disk: "\<forall>p. write_error env p = None"
  proof -
    from left obtain img where img: "pfile (run env (ScreencaptureFull ?tmp)) = Some img"
      by auto
    from jpeg obtain out where out: "sharp env [Jpeg (qualityOf opts)] img = Inr out"
      by blast
    from meta obtain m1 m2 where m1: "sharp_metadata env img = Inr m1"
      and m2: "sharp_metadata env out = Inr m2"
      by blast
    have "wp (captureWindow env opts)
            (\<lambda>r s'. \<exists>x. r = Inr x \<and> windowId x = Some (win_id target) \<and>
                         shot_type x = ''window'') st"
      using assms(1,2,4) frame darwin app ran img out m1 m2 disk
      by (simp add: captureWindow_def Let_def pathJoin_def case_prod_beta
            wp_getWindowList [OF assms(3)] captureCommand_def spawn_def tempPath_def)
    then show ?thesis by (rule wpD)
  qed
  show ?thesis
    using started success by (simp add: captureCommand_def)
qed

theorem window_capture_dispatch_witness:
  "opt_windowTitle (windowOpts ''Safari'') = Some ''Safari'' \<and> ''Safari'' \<noteq> [] \<and>
   fst (getWindowList processEnv initialState) =
     Inr [\<lparr>win_id = ''app_0'', title = Some ''Finder Window'', owner_name = Some ''Finder'',
           bounds = zeroBounds\<rparr>,
          \<lparr>win_id = ''app_1'', title = Some ''Safari Window'', owner_name = Some ''Safari'',
           bounds = zeroBounds\<rparr>] \<and>
   startsWith ''app_1'' ''app_'' \<and>
   started (snd (getWindowList processEnv initialState))
           (snd (captureWindow processEnv (windowOpts ''Safari'') initialState)) =
     [ScreencaptureFull ''/srv/screenshots/temp_1700000000001.png''] \<and>
   (\<exists>r. fst (captureWindow processEnv (windowOpts ''Safari'') initialState) = Inr r \<and>
        windowId r = Some ''app_1'' \<and> shot_type r = ''window'') \<and>
   fst (getWindowList appleScriptEnv initialState) = Inr [claimedRecord] \<and>
   \<not> startsWith ''1234'' ''app_'' \<and>
   started (snd (getWindowList appleScriptEnv initialState))
           (snd (captureWindow appleScriptEnv (windowOpts ''Page'') initialState)) =
     [ScreencaptureWindow ''1234'' ''/srv/screenshots/temp_1700000000001.png'']"
proof -
  let ?ws = "[\<lparr>win_id = ''app_0'', title = Some ''Finder Window'', owner_name = Some ''Finder'',
           bounds = zeroBounds\<rparr>,
          \<lparr>win_id = ''app_1'', title = Some ''Safari Window'', owner_name = Some ''Safari'',
           bounds = zeroBounds\<rparr>]"
  let ?target = "\<lparr>win_id = ''app_1'', title = Some ''Safari Window'',
                  owner_name = Some ''Safari'', bounds = zeroBounds\<rparr>"
  have a: "opt_windowTitle (windowOpts ''Safari'') = Some ''Safari''"
    and a': "opt_windowTitle (windowOpts ''Page'') = Some ''Page''"
    by (simp_all add: windowOpts_def)
  have b: "''Safari'' \<noteq> []" and b': "''Page'' \<noteq> []" by simp_all
  have c: "getWindowList processEnv initialState =
             (Inr ?ws, snd (getWindowList processEnv initialState))"
    by (simp add: getWindowList_def cascade_eval strategy_evals processEnv_def env_defs
          parser_defs)
  have c': "getWindowList appleScriptEnv initialState =
             (Inr [claimedRecord], snd (getWindowList appleScriptEnv initialState))"
    by (simp add: getWindowList_def cascade_eval strategy_evals appleScriptEnv_def env_defs
          parser_defs claimedRecord_def)
  have d: "find (matchesTitle ''Safari'') ?ws = Some ?target"
    by (simp add: matchesTitle_def)
  have d': "find (matchesTitle ''Page'') [claimedRecord] = Some claimedRecord"
    by (simp add: matchesTitle_def claimedRecord_def)
  have e: "startsWith ''app_1'' ''app_''" and e': "\<not> startsWith ''1234'' ''app_''"
    by simp_all
  have tmp: "tempPath processEnv (Suc (tick initialState)) = ''/srv/screenshots/temp_1700000000001.png''"
    "tempPath appleScriptEnv (Suc (tick initialState)) = ''/srv/screenshots/temp_1700000000001.png''"
    by (simp_all add: processEnv_def appleScriptEnv_def env_defs tempPath_def digitsOf.simps
          digitChar_def)
  have ext: "perror (run processEnv (ScreencaptureFull ''/srv/screenshots/temp_1700000000001.png'')) = None \<and>
      pfile (run processEnv (ScreencaptureFull ''/srv/screenshots/temp_1700000000001.png'')) \<noteq> None \<and>
      (\<forall>buf. \<exists>out. sharp processEnv [Jpeg (qualityOf (windowOpts ''Safari''))] buf = Inr out) \<and>
      (\<forall>buf. \<exists>m. sharp_metadata processEnv buf = Inr m) \<and>
      (\<forall>p. write_error processEnv p = None)"
    by (simp add: processEnv_def env_defs)
  note t = window_capture_dispatch [OF a b c d] and t' = window_capture_dispatch [OF a' b' c' d']
  from t e tmp(1) ext have r1: "started (snd (getWindowList processEnv initialState))
           (snd (captureWindow processEnv (windowOpts ''Safari'') initialState)) =
     [ScreencaptureFull ''/srv/screenshots/temp_1700000000001.png''] \<and>
   (\<exists>r. fst (captureWindow processEnv (windowOpts ''Safari'') initialState) = Inr r \<and>
        windowId r = Some ''app_1'' \<and> shot_type r = ''window'')"
    by simp
  from t' e' tmp(2) have r2: "started (snd (getWindowList appleScriptEnv initialState))
           (snd (captureWindow appleScriptEnv (windowOpts ''Page'') initialState)) =
     [ScreencaptureWindow ''1234'' ''/srv/screenshots/temp_1700000000001.png'']"
    by (simp add: claimedRecord_def)
  from c have c1: "fst (getWindowList processEnv initialState) = Inr ?ws"
    by (metis fst_conv)
  from c' have c2: "fst (getWindowList appleScriptEnv initialState) = Inr [claimedRecord]"
    by (metis fst_conv)
  from a b c1 e r1 c2 e' r2 show ?thesis by simp
qed

section \<open>Capturing an application\<close>

text \<open>
  captureApplication either fails in the state discovery left, or goes on as captureWindow
  does from that state, called with the options and the title of the target.
\<close>

lemma wp_captureApplication:
  assumes d: "getWindowList env st = (ws, s1)"
    and err: "\<And>e. Q (Inl e) s1"
    and del: "\<And>win. wp (captureWindow env (delegated opts win)) Q s1"
  shows "wp (captureApplication env opts) Q st"
  using err del by (simp add: captureApplication_def Let_def wp_getWindowList [OF d])

lemma delegated_simps [simp]:
  "formatOf (delegated opts win) = formatOf opts"
  "qualityOf (delegated opts win) = qualityOf opts"
  "saveToFileOf (delegated opts win) = saveToFileOf opts"
  by (simp_all add: delegated_def formatOf_def qualityOf_def saveToFileOf_def
        split: option.splits)

text \<open>
  Three runs on a fresh server. With a Godot window on the screen the tool answers with a
  record of that window. With no window at all it answers with the error of
  captureApplication. With a \<open>windowTitle\<close> among the parameters that no window has,
  the error is the one of captureWindow, as captureWindow worded it.
\<close>

lemma godot_windows:
  "getWindowList godotEnv st =
     (Inr [\<lparr>win_id = ''77'', title = Some ''Main Scene'', owner_name = Some ''Godot'',
           bounds = zeroBounds\<rparr>],
      st\<lparr>files := (files st)(''/srv/screenshots/getWindows.swift'' := None),
         trace := trace st @
        [Write ''/srv/screenshots/getWindows.swift'',
         Spawn (Chmod ''/srv/screenshots/getWindows.swift''),
         Spawn (RunScript ''/srv/screenshots/getWindows.swift''),
         Remove ''/srv/screenshots/getWindows.swift'',
         Spawn OsascriptWindows]\<rparr>)"
  by (simp add: getWindowList_def cascade_eval strategy_evals godotEnv_def env_defs parser_defs)

lemma application_example:
  "fst (callTool Capture_application godotEnv noOpts initialState) = Success godotReply"
proof -
  have "wp (captureApplication godotEnv noOpts)
          (\<lambda>r s'. \<exists>x. r = Inr x \<and> answer Capture_application noOpts x = godotReply)
          initialState"
    apply (simp add: captureApplication_def Let_def wp_getWindowList [OF godot_windows]
        appTypeOf_def noOpts_def delegated_def isPygame_def captureWindow_def matchesTitle_def
        formatOf_def qualityOf_def saveToFileOf_def pathJoin_def)
    apply (simp add: godotEnv_def env_defs sanitize_def isAlnum_def stamp_def digitsOf.simps
        digitChar_def spawn_def replyOf_def captureCommand_def godotReply_def)
    done
  then show ?thesis
    by (auto simp add: wp_def callTool_def handler_def split: prod.splits sum.splits)
qed

lemma quiet_windows:
  "getWindowList quietEnv st =
     (Inr [],
      st\<lparr>files := (files st)(''/srv/screenshots/getWindows.swift'' := None),
         trace := trace st @
        [Write ''/srv/screenshots/getWindows.swift'',
         Spawn (Chmod ''/srv/screenshots/getWindows.swift''),
         Spawn (RunScript ''/srv/screenshots/getWindows.swift''),
         Remove ''/srv/screenshots/getWindows.swift'',
         Spawn OsascriptWindows, Spawn ScreencaptureList, Spawn OsascriptProcesses]\<rparr>)"
  by (simp add: getWindowList_def cascade_eval strategy_evals quietEnv_def env_defs parser_defs)

lemma application_absent:
  "fst (callTool Capture_application quietEnv noOpts initialState) =
     Failure ''Failed to capture application: No Godot or PyGame application found''"
proof -
  have "wp (captureApplication quietEnv noOpts)
          (\<lambda>r s'. r = Inl ''Failed to capture application: No Godot or PyGame application found'')
          initialState"
    by (simp add: captureApplication_def Let_def wp_getWindowList [OF quiet_windows]
          appTypeOf_def noOpts_def noApplication_def)
  then show ?thesis
    by (auto simp add: wp_def callTool_def handler_def split: prod.splits sum.splits)
qed

lemma application_other_title:
  "fst (callTool Capture_application godotEnv (noOpts\<lparr>opt_windowTitle := Some ''Safari''\<rparr>)
         initialState) =
     Failure (''Failed to capture window: Window with title '' @ [CHR 0x22] @ ''Safari''
              @ [CHR 0x22] @ '' not found'')"
proof -
  have "wp (captureApplication godotEnv (noOpts\<lparr>opt_windowTitle := Some ''Safari''\<rparr>))
          (\<lambda>r s'. r = Inl (''Failed to capture window: Window with title '' @ [CHR 0x22]
                            @ ''Safari'' @ [CHR 0x22] @ '' not found''))
          initialState"
    by (simp add: captureApplication_def Let_def wp_getWindowList [OF godot_windows]
          appTypeOf_def noOpts_def delegated_def captureWindow_def matchesTitle_def
          notFound_def)
  then show ?thesis
    by (auto simp add: wp_def callTool_def handler_def split: prod.splits sum.splits)
qed

section \<open>The history\<close>

lemma grows_refl [simp]: "grows h h"
  unfolding grows_def by (rule exI [of _ "[]"]) simp

lemma grows_add [simp]: "grows h h' \<Longrightarrow> grows h (addToHistory s h')"
  unfolding grows_def
proof (elim exE)
  fix rs assume "h' = foldl (\<lambda>h s. addToHistory s h) h rs"
  then have "addToHistory s h' = foldl (\<lambda>h s. addToHistory s h) h (rs @ [s])" by simp
  then show "\<exists>rs. addToHistory s h' = foldl (\<lambda>h s. addToHistory s h) h rs" ..
qed

lemma grows_trans: "grows h h' \<Longrightarrow> grows h' h'' \<Longrightarrow> grows h h''"
  unfolding grows_def
proof (elim exE)
  fix rs rs' assume "h' = foldl (\<lambda>h s. addToHistory s h) h rs"
    and "h'' = foldl (\<lambda>h s. addToHistory s h) h' rs'"
  then have "h'' = foldl (\<lambda>h s. addToHistory s h) h (rs @ rs')" by simp
  then show "\<exists>rs. h'' = foldl (\<lambda>h s. addToHistory s h) h rs" ..
qed

lemma captureWindow_grows:
  "wp (captureWindow env opts) (\<lambda>r s'. grows (history st) (history s')) st"
proof -
  obtain ws s1 where d: "getWindowList env st = (ws, s1)"
    by (cases "getWindowList env st")
  note f = getWindowList_frame [OF d]
  show ?thesis
    using f by (simp add: capture_defs wp_getWindowList [OF d])
qed

lemma capture_grows: "grows (history st) (history (snd (capture t env opts st)))"
proof -
  obtain ws s1 where d: "getWindowList env st = (ws, s1)"
    by (cases "getWindowList env st")
  note f = getWindowList_frame [OF d]
  have "wp (capture t env opts) (\<lambda>r s'. grows (history st) (history s')) st"
  proof (cases t)
    case Capture_full_screen
    then show ?thesis by (simp add: capture_defs)
  next
    case Capture_window
    then show ?thesis by (simp add: captureWindow_grows)
  next
    case Capture_application
    have "wp (captureApplication env opts) (\<lambda>r s'. grows (history st) (history s')) st"
    proof (rule wp_captureApplication [OF d])
      show "grows (history st) (history s1)"
        using f by simp
      show "wp (captureWindow env (delegated opts win))
              (\<lambda>r s'. grows (history st) (history s')) s1" for win
        using captureWindow_grows [of env "delegated opts win" s1] f by simp
    qed
    with Capture_application show ?thesis by simp
  next
    case Capture_region
    then show ?thesis by (simp add: capture_defs)
  qed
  then show ?thesis by (rule wpD)
qed

lemma runCalls_grows: "grows (history st) (history (runCalls calls st))"
proof (induction calls arbitrary: st)
  case Nil
  show ?case by simp
next
  case (Cons c calls)
  obtain t env params where c: "c = (t, env, params)" by (cases c)
  have "grows (history st) (history (snd (callTool t env params st)))"
    using capture_grows [of st t env params] by (simp add: callTool_eq)
  then show ?case
    using Cons.IH [of "snd (callTool t env params st)"] c by (auto intro: grows_trans)
qed

lemma addToHistory_length: "length h \<le> 100 \<Longrightarrow> length (addToHistory s h) \<le> 100"
  by (simp add: addToHistory_def)

lemma foldl_addToHistory:
  "length h \<le> 100 \<Longrightarrow>
   foldl (\<lambda>h s. addToHistory s h) h shots = drop (length (h @ shots) - 100) (h @ shots)"
proof (induction shots arbitrary: h)
  case Nil
  then show ?case by simp
next
  case (Cons s shots)
  have len: "length (addToHistory s h) \<le> 100"
    using Cons.prems by (rule addToHistory_length)
  have "foldl (\<lambda>h s. addToHistory s h) (addToHistory s h) shots =
        drop (length (addToHistory s h @ shots) - 100) (addToHistory s h @ shots)"
    using len by (rule Cons.IH)
  also have "\<dots> = drop (length (h @ s # shots) - 100) (h @ s # shots)"
  proof (cases "length h = 100")
    case True
    then obtain x xs where h: "h = x # xs" by (cases h) auto
    with True show ?thesis by (simp add: addToHistory_def)
  next
    case False
    with Cons.prems have "length h < 100" by simp
    then show ?thesis by (simp add: addToHistory_def)
  qed
  finally show ?case by simp
qed

lemma find_distinct:
  "distinct (map f xs) \<Longrightarrow> x \<in> set xs \<Longrightarrow> find (\<lambda>s. f s = f x) xs = Some x"
  by (induction xs) auto

lemma find_absent: "i \<notin> f ` set xs \<Longrightarrow> find (\<lambda>s. f s = i) xs = None"
  by (induction xs) auto

subsection \<open>The ids of the records\<close>

text \<open>
  generateId joins the decimal digits of a clock reading and of a random number below
  1000. Two ids are equal only when both readings are.
\<close>

lemma digitChar_value: "d < 10 \<Longrightarrow> isDigit (digitChar d) \<and> of_char (digitChar d) = 48 + d"
proof -
  assume "d < 10"
  then have "d = 0 \<or> d = 1 \<or> d = 2 \<or> d = 3 \<or> d = 4 \<or> d = 5 \<or> d = 6 \<or> d = 7 \<or> d = 8 \<or> d = 9"
    by arith
  then show ?thesis
    by (elim disjE) (simp_all add: digitChar_def isDigit_def)
qed

lemma digitsOf_digits: "c \<in> set (digitsOf n) \<Longrightarrow> isDigit c"
proof (induction n rule: digitsOf.induct)
  case (1 n)
  show ?case
  proof (cases "n < 10")
    case True
    with "1.prems" show ?thesis
      by (simp add: digitsOf.simps [of n] digitChar_value)
  next
    case False
    with "1.prems" "1.IH" show ?thesis
      by (auto simp add: digitsOf.simps [of n] digitChar_value)
  qed
qed

lemma digitsValue_snoc: "digitsValue (ds @ [c]) = 10 * digitsValue ds + (of_char c - 48)"
  by (simp add: digitsValue_def)

lemma digitsValue_digitsOf: "digitsValue (digitsOf n) = n"
proof (induction n rule: digitsOf.induct)
  case (1 n)
  show ?case
  proof (cases "n < 10")
    case True
    then show ?thesis
      by (simp add: digitsOf.simps [of n] digitsValue_def digitChar_value)
  next
    case False
    then have "digitsValue (digitsOf n) = 10 * digitsValue (digitsOf (n div 10)) + n mod 10"
      by (simp add: digitsOf.simps [of n] digitsValue_snoc digitChar_value)
    with False "1.IH" show ?thesis by simp
  qed
qed

lemma digitsOf_inject: "digitsOf a = digitsOf b \<Longrightarrow> a = b"
  by (metis digitsValue_digitsOf)

lemma underscore_no_digit: "\<not> isDigit (CHR ''_'')"
  by (simp add: isDigit_def)

lemma numbered_split:
  assumes "a @ CHR ''_'' # b = a' @ CHR ''_'' # b'"
    and "\<forall>c \<in> set a. isDigit c" and "\<forall>c \<in> set a'. isDigit c"
  shows "a = a' \<and> b = b'"
proof -
  have "takeWhile isDigit (a @ CHR ''_'' # b) = a"
    using assms(2) by (simp add: takeWhile_append2 underscore_no_digit)
  moreover have "takeWhile isDigit (a' @ CHR ''_'' # b') = a'"
    using assms(3) by (simp add: takeWhile_append2 underscore_no_digit)
  ultimately have "a = a'" using assms(1) by simp
  with assms(1) show ?thesis by simp
qed

lemma idAt_inject:
  assumes "inj (\<lambda>n. (date_now env n, random1000 env n mod 1000))"
    and "idAt env m = idAt env n"
  shows "m = n"
proof -
  from assms(2) have "digitsOf (date_now env m) @ CHR ''_'' # digitsOf (random1000 env m mod 1000) =
      digitsOf (date_now env n) @ CHR ''_'' # digitsOf (random1000 env n mod 1000)"
    by (simp add: idAt_def)
  then have "digitsOf (date_now env m) = digitsOf (date_now env n) \<and>
      digitsOf (random1000 env m mod 1000) = digitsOf (random1000 env n mod 1000)"
    by (rule numbered_split) (auto dest: digitsOf_digits)
  then have "(date_now env m, random1000 env m mod 1000) = (date_now env n, random1000 env n mod 1000)"
    by (auto dest: digitsOf_inject)
  with assms(1) show ?thesis by (auto dest: injD)
qed

subsection \<open>What one capture appends\<close>

text \<open>
  Each capture function calls addToHistory once, as its last step, on the record it
  returns. A region capture off macOS is the exception: it goes through
  captureFullScreen, which has appended its own record before.
\<close>

lemma appends_frame:
  "history s1 = history st \<Longrightarrow> tick s1 = tick st \<Longrightarrow> appends env s1 = appends env st"
  by (simp add: appends_def fun_eq_iff)

lemma captureFullScreen_appends: "wp (captureFullScreen env opts) (appends env st) st"
  by (simp add: appends_def capture_defs idAt_def)

lemma captureWindow_appends: "wp (captureWindow env opts) (appends env st) st"
proof -
  obtain ws s1 where d: "getWindowList env st = (ws, s1)"
    by (cases "getWindowList env st")
  note f = getWindowList_frame [OF d]
  show ?thesis
    using f by (simp add: appends_def capture_defs idAt_def wp_getWindowList [OF d])
qed

lemma captureApplication_appends: "wp (captureApplication env opts) (appends env st) st"
proof -
  obtain ws s1 where d: "getWindowList env st = (ws, s1)"
    by (cases "getWindowList env st")
  note f = getWindowList_frame [OF d]
  have same: "appends env s1 = appends env st"
    using f by (intro appends_frame) simp_all
  show ?thesis
  proof (rule wp_captureApplication [OF d])
    show "appends env st (Inl e) s1" for e
      using f by (simp add: appends_def)
    show "wp (captureWindow env (delegated opts win)) (appends env st) s1" for win
      using captureWindow_appends [of env "delegated opts win" s1] same by simp
  qed
qed

lemma captureRegion_appends:
  "platform env = ''darwin'' \<Longrightarrow> wp (captureRegion env opts) (appends env st) st"
  by (simp add: appends_def capture_defs idAt_def)

lemma capture_appends:
  assumes "t = Capture_region \<longrightarrow> platform env = ''darwin''"
  shows "appends env st (fst (capture t env opts st)) (snd (capture t env opts st))"
proof -
  have "wp (capture t env opts) (appends env st) st"
    using assms
    by (cases t)
      (simp_all add: captureFullScreen_appends captureWindow_appends captureApplication_appends
         captureRegion_appends)
  then show ?thesis by (rule wpD)
qed

subsection \<open>A sequence of calls\<close>

lemma idAt_cong:
  "date_now e = date_now env \<Longrightarrow> random1000 e = random1000 env \<Longrightarrow> idAt e = idAt env"
  by (simp add: idAt_def fun_eq_iff)

lemma runCalls_returned:
  assumes inj: "inj (\<lambda>n. (date_now env n, random1000 env n mod 1000))"
    and "sameReadings env calls" and "oneAppend calls"
  shows "history (runCalls calls st) =
           foldl (\<lambda>h s. addToHistory s h) (history st) (returned calls st) \<and>
         tick st \<le> tick (runCalls calls st) \<and>
         distinct (map shot_id (returned calls st)) \<and>
         (\<forall>r \<in> set (returned calls st).
            \<exists>k. tick st \<le> k \<and> k < tick (runCalls calls st) \<and> shot_id r = idAt env k)"
  using assms(2,3)
proof (induction calls arbitrary: st)
  case Nil
  show ?case by simp
next
  case (Cons c calls)
  obtain t e params where c: "c = (t, e, params)" by (cases c)
  from Cons.prems c have rd: "date_now e = date_now env" "random1000 e = random1000 env"
    and rest: "sameReadings env calls"
    and one: "t = Capture_region \<longrightarrow> platform e = ''darwin''"
    and rest1: "oneAppend calls"
    by (simp_all add: sameReadings_def oneAppend_def)
  let ?res = "fst (capture t e params st)"
  let ?s1 = "snd (capture t e params st)"
  let ?end = "runCalls calls ?s1"
  have step: "appends env st ?res ?s1"
    using capture_appends [OF one, of st params] idAt_cong [OF rd] by (simp add: appends_def)
  note ih = Cons.IH [OF rest rest1, of ?s1]
  have run: "runCalls (c # calls) st = ?end"
    using c by (simp add: callTool_eq)
  show ?case
  proof (cases ?res)
    case (Inl err)
    then have ret: "returned (c # calls) st = returned calls ?s1"
      using c by (cases "capture t e params st") simp
    from step Inl have h: "history ?s1 = history st" and t: "tick st \<le> tick ?s1"
      by (simp_all add: appends_def)
    have "\<exists>k. tick st \<le> k \<and> k < tick ?end \<and> shot_id r = idAt env k"
      if "r \<in> set (returned calls ?s1)" for r
    proof -
      from ih that obtain k where "tick ?s1 \<le> k" "k < tick ?end" "shot_id r = idAt env k"
        by blast
      with t show ?thesis by (intro exI [of _ k]) simp
    qed
    with ih h t show ?thesis unfolding run ret by auto
  next
    case (Inr x)
    then have ret: "returned (c # calls) st = x # returned calls ?s1"
      using c by (cases "capture t e params st") simp
    from step Inr have h: "history ?s1 = addToHistory x (history st)"
      and t: "tick st < tick ?s1" and i: "shot_id x = idAt env (tick ?s1 - 1)"
      by (simp_all add: appends_def)
    have fresh: "shot_id x \<notin> shot_id ` set (returned calls ?s1)"
    proof
      assume "shot_id x \<in> shot_id ` set (returned calls ?s1)"
      then obtain r where r: "r \<in> set (returned calls ?s1)" and "shot_id r = shot_id x"
        by auto
      moreover from ih r obtain k where "tick ?s1 \<le> k" and "shot_id r = idAt env k"
        by blast
      ultimately have "idAt env k = idAt env (tick ?s1 - 1)" using i by simp
      then have "k = tick ?s1 - 1" by (rule idAt_inject [OF inj])
      with \<open>tick ?s1 \<le> k\<close> t show False by simp
    qed
    have ids: "\<exists>k. tick st \<le> k \<and> k < tick ?end \<and> shot_id r = idAt env k"
      if "r \<in> set (x # returned calls ?s1)" for r
    proof (cases "r = x")
      case True
      with i t ih show ?thesis by (intro exI [of _ "tick ?s1 - 1"]) auto
    next
      case False
      with that ih obtain k where "tick ?s1 \<le> k" "k < tick ?end" "shot_id r = idAt env k"
        by auto
      with t show ?thesis by (intro exI [of _ k]) simp
    qed
    from ih h t fresh ids show ?thesis unfolding run ret by auto
  qed
qed

lemma retrieval:
  assumes "distinct (map shot_id rs)"
  shows "(\<forall>r \<in> set (take n rs). getScreenshotById (drop n rs) (shot_id r) = None) \<and>
         (\<forall>r \<in> set (drop n rs). getScreenshotById (drop n rs) (shot_id r) = Some r)"
proof -
  from assms have "distinct (map shot_id (take n rs @ drop n rs))" by simp
  then have d: "distinct (map shot_id (drop n rs))"
    and apart: "shot_id ` set (take n rs) \<inter> shot_id ` set (drop n rs) = {}"
    by (simp_all only: map_append distinct_append set_map)
  have "getScreenshotById (drop n rs) (shot_id r) = None" if "r \<in> set (take n rs)" for r
    using that apart by (auto simp add: getScreenshotById_def intro!: find_absent)
  moreover have "getScreenshotById (drop n rs) (shot_id r) = Some r" if "r \<in> set (drop n rs)" for r
    using d that by (simp add: getScreenshotById_def find_distinct)
  ultimately show ?thesis by blast
qed

lemma runCalls_append: "runCalls (a @ b) st = runCalls b (runCalls a st)"
  by (induction a arbitrary: st) auto

lemma runCalls_bound:
  "length (history st) \<le> 100 \<Longrightarrow> length (history (runCalls calls st)) \<le> 100"
  using runCalls_grows [of st calls] by (auto simp add: grows_def foldl_addToHistory)

subsection \<open>Three servers\<close>

text \<open>
  A server that takes full-screen captures on macOS, one that takes region captures on
  another platform, and one whose clock stands still.
\<close>

lemma quiet_inj: "inj (\<lambda>n. (date_now quietEnv n, random1000 quietEnv n mod 1000))"
  by (simp add: inj_def quietEnv_def env_defs)

lemma linux_inj: "inj (\<lambda>n. (date_now linuxEnv n, random1000 linuxEnv n mod 1000))"
  by (simp add: inj_def linuxEnv_def quietEnv_def env_defs)

lemma fullCall_step:
  "fst (captureFullScreen quietEnv noOpts st) = Inr (shotAt (tick st)) \<and>
   tick (snd (captureFullScreen quietEnv noOpts st)) = Suc (Suc (tick st))"
proof -
  have "wp (captureFullScreen quietEnv noOpts)
          (\<lambda>r s'. r = Inr (shotAt (tick st)) \<and> tick s' = Suc (Suc (tick st))) st"
    by (simp add: capture_defs noOpts_def formatOf_def qualityOf_def saveToFileOf_def
          quietEnv_def env_defs shotAt_def idAt_def)
  then show ?thesis by (rule wpD)
qed

lemma returned_fullCall:
  "returned (replicate n fullCall) st = map (\<lambda>k. shotAt (tick st + 2 * k)) [0..<n]"
proof (induction n arbitrary: st)
  case 0
  show ?case by simp
next
  case (Suc n)
  let ?s1 = "snd (captureFullScreen quietEnv noOpts st)"
  from fullCall_step [of st]
  have "returned (replicate (Suc n) fullCall) st = shotAt (tick st) # returned (replicate n fullCall) ?s1"
    by (cases "captureFullScreen quietEnv noOpts st") (simp add: fullCall_def)
  also have "returned (replicate n fullCall) ?s1 = map (\<lambda>k. shotAt (tick ?s1 + 2 * k)) [0..<n]"
    by (rule Suc.IH)
  also have "tick ?s1 = Suc (Suc (tick st))"
    using fullCall_step [of st] by simp
  finally show ?case
    by (simp add: map_upt_Suc del: upt_Suc)
qed

lemma show_numbers: "showInt 100 = ''100''" "showInt 400 = ''400''" "showInt 300 = ''300''"
  by (simp_all add: showInt_def digitsOf.simps digitChar_def)

lemma regionCall_step:
  "fst (captureRegion linuxEnv regionOpts st) = Inr (croppedAt (tick st)) \<and>
   history (snd (captureRegion linuxEnv regionOpts st)) =
     addToHistory (croppedAt (tick st)) (addToHistory (wholeAt (tick st)) (history st)) \<and>
   tick (snd (captureRegion linuxEnv regionOpts st)) = Suc (Suc (Suc (Suc (tick st))))"
proof -
  have "wp (captureRegion linuxEnv regionOpts)
          (\<lambda>r s'. r = Inr (croppedAt (tick st)) \<and>
             history s' =
               addToHistory (croppedAt (tick st)) (addToHistory (wholeAt (tick st)) (history st)) \<and>
             tick s' = Suc (Suc (Suc (Suc (tick st))))) st"
    by (simp add: capture_defs regionOpts_def formatOf_def qualityOf_def saveToFileOf_def
          linuxEnv_def quietEnv_def env_defs croppedAt_def wholeAt_def idAt_def show_numbers)
  then show ?thesis by (rule wpD)
qed

lemma returned_regionCall:
  "returned (replicate n regionCall) st = map (\<lambda>k. croppedAt (tick st + 4 * k)) [0..<n]"
proof (induction n arbitrary: st)
  case 0
  show ?case by simp
next
  case (Suc n)
  let ?s1 = "snd (captureRegion linuxEnv regionOpts st)"
  from regionCall_step [of st]
  have "returned (replicate (Suc n) regionCall) st =
          croppedAt (tick st) # returned (replicate n regionCall) ?s1"
    by (cases "captureRegion linuxEnv regionOpts st") (simp add: regionCall_def)
  also have "returned (replicate n regionCall) ?s1 = map (\<lambda>k. croppedAt (tick ?s1 + 4 * k)) [0..<n]"
    by (rule Suc.IH)
  also have "tick ?s1 = tick st + 4"
    using regionCall_step [of st] by simp
  finally show ?case
    by (simp add: map_upt_Suc ac_simps del: upt_Suc)
qed

lemma run_regionCall:
  "tick (runCalls (replicate n regionCall) st) = tick st + 4 * n \<and>
   (\<exists>rs. length rs = 2 * n \<and>
         (\<forall>r \<in> set rs. \<exists>k. tick st \<le> k \<and> shot_id r = idAt linuxEnv k) \<and>
         history (runCalls (replicate n regionCall) st) =
           foldl (\<lambda>h s. addToHistory s h) (history st) rs)"
proof (induction n arbitrary: st)
  case 0
  show ?case by simp
next
  case (Suc n)
  let ?s1 = "snd (captureRegion linuxEnv regionOpts st)"
  note step = regionCall_step [of st]
  have run: "runCalls (replicate (Suc n) regionCall) st = runCalls (replicate n regionCall) ?s1"
    by (simp add: regionCall_def callTool_eq)
  from Suc.IH [of ?s1] obtain rs where t: "tick (runCalls (replicate n regionCall) ?s1) = tick ?s1 + 4 * n"
    and len: "length rs = 2 * n"
    and ids: "\<forall>r \<in> set rs. \<exists>k. tick ?s1 \<le> k \<and> shot_id r = idAt linuxEnv k"
    and h: "history (runCalls (replicate n regionCall) ?s1) =
              foldl (\<lambda>h s. addToHistory s h) (history ?s1) rs"
    by blast
  let ?rs = "wholeAt (tick st) # croppedAt (tick st) # rs"
  have "length ?rs = 2 * Suc n" using len by simp
  moreover have "\<exists>k. tick st \<le> k \<and> shot_id r = idAt linuxEnv k" if "r \<in> set ?rs" for r
  proof -
    from that consider "r = wholeAt (tick st)" | "r = croppedAt (tick st)" | "r \<in> set rs"
      by auto
    then show ?thesis
    proof cases
      case 1
      then show ?thesis by (intro exI [of _ "Suc (tick st)"]) (simp add: wholeAt_def)
    next
      case 2
      then show ?thesis
        by (intro exI [of _ "Suc (Suc (Suc (tick st)))"]) (simp add: croppedAt_def)
    next
      case 3
      with ids obtain k where "tick ?s1 \<le> k" "shot_id r = idAt linuxEnv k" by blast
      with step show ?thesis by (intro exI [of _ k]) simp
    qed
  qed
  moreover have "history (runCalls (replicate (Suc n) regionCall) st) =
           foldl (\<lambda>h s. addToHistory s h) (history st) ?rs"
    using h step unfolding run by simp
  moreover have "tick (runCalls (replicate (Suc n) regionCall) st) = tick st + 4 * Suc n"
    using t step unfolding run by simp
  ultimately show ?case by blast
qed

lemma in_addToHistory: "s \<in> set (addToHistory x h) \<Longrightarrow> s = x \<or> s \<in> set h"
  by (cases h) (auto simp add: addToHistory_def split: if_splits)

lemma stuckCall_step:
  "\<exists>x. fst (captureFullScreen stuckEnv noOpts st) = Inr x \<and> shot_id x = ''ss_5_7'' \<and>
       history (snd (captureFullScreen stuckEnv noOpts st)) = addToHistory x (history st)"
proof -
  have "wp (captureFullScreen stuckEnv noOpts)
          (\<lambda>r s'. \<exists>x. r = Inr x \<and> shot_id x = ''ss_5_7'' \<and>
                       history s' = addToHistory x (history st)) st"
    by (simp add: capture_defs noOpts_def formatOf_def qualityOf_def saveToFileOf_def
          stuckEnv_def quietEnv_def env_defs digitsOf.simps digitChar_def)
  then show ?thesis by (rule wpD)
qed

lemma run_stuckCall:
  assumes "\<forall>s \<in> set (history st). shot_id s = ''ss_5_7''"
  shows "(\<forall>s \<in> set (history (runCalls (replicate n stuckCall) st)). shot_id s = ''ss_5_7'') \<and>
         (0 < n \<longrightarrow> history (runCalls (replicate n stuckCall) st) \<noteq> []) \<and>
         length (returned (replicate n stuckCall) st) = n \<and>
         (\<forall>r \<in> set (returned (replicate n stuckCall) st). shot_id r = ''ss_5_7'')"
  using assms
proof (induction n arbitrary: st)
  case 0
  then show ?case by simp
next
  case (Suc n)
  let ?s1 = "snd (captureFullScreen stuckEnv noOpts st)"
  from stuckCall_step [of st] obtain x where x: "fst (captureFullScreen stuckEnv noOpts st) = Inr x"
    and i: "shot_id x = ''ss_5_7''" and h: "history ?s1 = addToHistory x (history st)"
    by blast
  have run: "runCalls (replicate (Suc n) stuckCall) st = runCalls (replicate n stuckCall) ?s1"
    by (simp add: stuckCall_def callTool_eq)
  have ret: "returned (replicate (Suc n) stuckCall) st = x # returned (replicate n stuckCall) ?s1"
    using x by (cases "captureFullScreen stuckEnv noOpts st") (simp add: stuckCall_def)
  have all: "\<forall>s \<in> set (history ?s1). shot_id s = ''ss_5_7''"
    using Suc.prems i h by (auto dest: in_addToHistory)
  note ih = Suc.IH [OF all]
  have "history (runCalls (replicate n stuckCall) ?s1) \<noteq> []"
  proof (cases n)
    case 0
    then show ?thesis using h by (simp add: addToHistory_def)
  next
    case (Suc m)
    with ih show ?thesis by simp
  qed
  with ih i show ?case unfolding run ret by simp
qed

lemma stuck_id_found:
  "getScreenshotById (history (runCalls (replicate 101 stuckCall) initialState)) ''ss_5_7'' \<noteq> None"
proof -
  let ?h = "history (runCalls (replicate 101 stuckCall) initialState)"
  from run_stuckCall [of initialState 101]
  have all: "\<forall>s \<in> set ?h. shot_id s = ''ss_5_7''" and some: "?h \<noteq> []"
    by (simp_all add: initialState_def)
  then obtain a rest where "?h = a # rest" by (cases ?h) auto
  with all show ?thesis by (simp add: getScreenshotById_def)
qed

lemma second_region_id: "idAt linuxEnv 7 = ''ss_1700000000007_49''"
  by (simp add: idAt_def linuxEnv_def quietEnv_def env_defs digitsOf.simps digitChar_def)

lemma second_region_lost:
  "getScreenshotById (history (runCalls (replicate 101 regionCall) initialState))
     ''ss_1700000000007_49'' = None"
proof -
  let ?s51 = "runCalls (replicate 51 regionCall) initialState"
  let ?end = "runCalls (replicate 50 regionCall) ?s51"
  have split: "runCalls (replicate 101 regionCall) initialState = ?end"
    using runCalls_append [of "replicate 51 regionCall" "replicate 50 regionCall" initialState]
    by (simp add: replicate_add [symmetric])
  have t: "tick ?s51 = 204"
    using run_regionCall [of 51 initialState] by (simp add: initialState_def)
  have len: "length (history ?s51) \<le> 100"
    by (rule runCalls_bound) (simp add: initialState_def)
  from run_regionCall [of 50 ?s51] t obtain rs where l: "length rs = 100"
    and ids: "\<forall>r \<in> set rs. \<exists>k. 204 \<le> k \<and> shot_id r = idAt linuxEnv k"
    and h: "history ?end = foldl (\<lambda>h s. addToHistory s h) (history ?s51) rs"
    by auto
  from h l have "history ?end = rs"
    using foldl_addToHistory [OF len, of rs] by simp
  moreover have "idAt linuxEnv 7 \<notin> shot_id ` set rs"
  proof
    assume "idAt linuxEnv 7 \<in> shot_id ` set rs"
    then obtain r where "r \<in> set rs" and "shot_id r = idAt linuxEnv 7" by auto
    with ids obtain k where "204 \<le> k" and "idAt linuxEnv k = idAt linuxEnv 7" by force
    from idAt_inject [OF linux_inj this(2)] this(1) show False by simp
  qed
  ultimately show ?thesis
    unfolding split by (simp add: getScreenshotById_def find_absent second_region_id)
qed

text \<open>
  C6. The claim: after the 101st capture the id of the first is no longer found by
  getScreenshotById, and the ids of the 100 most recent are. The code: off macOS a region
  capture appends two records, the full-screen capture it crops and the region, so after
  101 region captures the history holds the records of the last 50 only, and the id
  that the second capture returned finds nothing. And ids repeat when the readings of the
  clock and of the random source do: where both stand still, the id of the first capture
  still finds a record after 101 captures.
\<close>

theorem history_ring_counterexample:
  "length (returned (replicate 101 regionCall) initialState) = 101 \<and>
   shot_id (returned (replicate 101 regionCall) initialState ! 1) = ''ss_1700000000007_49'' \<and>
   getScreenshotById (history (runCalls (replicate 101 regionCall) initialState))
     ''ss_1700000000007_49'' = None \<and>
   length (returned (replicate 101 stuckCall) initialState) = 101 \<and>
   shot_id (returned (replicate 101 stuckCall) initialState ! 0) = ''ss_5_7'' \<and>
   getScreenshotById (history (runCalls (replicate 101 stuckCall) initialState)) ''ss_5_7'' \<noteq> None"
proof -
  have a: "length (returned (replicate 101 regionCall) initialState) = 101"
    by (simp add: returned_regionCall)
  have "returned (replicate 101 regionCall) initialState ! 1 = croppedAt 4"
    by (simp add: returned_regionCall initialState_def del: upt.simps)
  then have b: "shot_id (returned (replicate 101 regionCall) initialState ! 1) =
      ''ss_1700000000007_49''"
    using second_region_id by (simp add: croppedAt_def)
  from run_stuckCall [of initialState 101]
  have c: "length (returned (replicate 101 stuckCall) initialState) = 101"
    and all: "\<forall>r \<in> set (returned (replicate 101 stuckCall) initialState). shot_id r = ''ss_5_7''"
    by (simp_all add: initialState_def)
  from c have "returned (replicate 101 stuckCall) initialState ! 0
      \<in> set (returned (replicate 101 stuckCall) initialState)"
    by (intro nth_mem) simp
  with all have d: "shot_id (returned (replicate 101 stuckCall) initialState ! 0) = ''ss_5_7''"
    by blast
  from a b second_region_lost c d stuck_id_found show ?thesis by blast
qed

text \<open>
  C6, amended. The history never holds more than 100 entries, whatever capture tools are
  called, in whatever environments. When no call is a region capture off macOS, and the
  calls read one clock and one random source of which no two readings give the same
  millisecond and the same number, the history after the calls is the list of the
  records that the successful calls returned, without all but its last 100: the id of
  every record returned before those finds nothing, and the id of each of the last 100
  finds its own record.
\<close>

theorem history_is_a_ring_of_100:
  "length (history (runCalls calls initialState)) \<le> 100 \<and>
   (inj (\<lambda>n. (date_now env n, random1000 env n mod 1000)) \<and> sameReadings env calls \<and>
    oneAppend calls \<longrightarrow>
      history (runCalls calls initialState) =
        drop (length (returned calls initialState) - 100) (returned calls initialState) \<and>
      (\<forall>r \<in> set (take (length (returned calls initialState) - 100) (returned calls initialState)).
         getScreenshotById (history (runCalls calls initialState)) (shot_id r) = None) \<and>
      (\<forall>r \<in> set (drop (length (returned calls initialState) - 100) (returned calls initialState)).
         getScreenshotById (history (runCalls calls initialState)) (shot_id r) = Some r))"
proof -
  let ?rs = "returned calls initialState"
  let ?h = "history (runCalls calls initialState)"
  have bound: "length ?h \<le> 100"
    by (rule runCalls_bound) (simp add: initialState_def)
  have rest: "?h = drop (length ?rs - 100) ?rs \<and>
      (\<forall>r \<in> set (take (length ?rs - 100) ?rs). getScreenshotById ?h (shot_id r) = None) \<and>
      (\<forall>r \<in> set (drop (length ?rs - 100) ?rs). getScreenshotById ?h (shot_id r) = Some r)"
    if "inj (\<lambda>n. (date_now env n, random1000 env n mod 1000))" "sameReadings env calls"
      "oneAppend calls"
  proof -
    note run = runCalls_returned [OF that, of initialState]
    from run have "?h = foldl (\<lambda>h s. addToHistory s h) [] ?rs"
      by (simp add: initialState_def)
    then have h: "?h = drop (length ?rs - 100) ?rs"
      using foldl_addToHistory [of "[]" ?rs] by simp
    from run have "distinct (map shot_id ?rs)" by simp
    from retrieval [OF this, of "length ?rs - 100"] h show ?thesis by simp
  qed
  show ?thesis
  proof (rule conjI [OF bound], rule impI)
    assume "inj (\<lambda>n. (date_now env n, random1000 env n mod 1000)) \<and> sameReadings env calls \<and>
      oneAppend calls"
    then show "?h = drop (length ?rs - 100) ?rs \<and>
      (\<forall>r \<in> set (take (length ?rs - 100) ?rs). getScreenshotById ?h (shot_id r) = None) \<and>
      (\<forall>r \<in> set (drop (length ?rs - 100) ?rs). getScreenshotById ?h (shot_id r) = Some r)"
      by (intro rest) simp_all
  qed
qed

theorem history_is_a_ring_of_100_witness:
  "inj (\<lambda>n. (date_now quietEnv n, random1000 quietEnv n mod 1000)) \<and>
   sameReadings quietEnv (replicate 101 fullCall) \<and> oneAppend (replicate 101 fullCall) \<and>
   length (returned (replicate 101 fullCall) initialState) = 101 \<and>
   returned (replicate 101 fullCall) initialState ! 0 = shotAt 0 \<and>
   returned (replicate 101 fullCall) initialState ! 1 = shotAt 2 \<and>
   returned (replicate 101 fullCall) initialState ! 100 = shotAt 200 \<and>
   shot_id (shotAt 0) = ''ss_1700000000001_7'' \<and>
   length (history (runCalls (replicate 101 fullCall) initialState)) = 100 \<and>
   getScreenshotById (history (runCalls (replicate 101 fullCall) initialState))
     ''ss_1700000000001_7'' = None \<and>
   getScreenshotById (history (runCalls (replicate 101 fullCall) initialState))
     (shot_id (shotAt 2)) = Some (shotAt 2) \<and>
   getScreenshotById (history (runCalls (replicate 101 fullCall) initialState))
     (shot_id (shotAt 200)) = Some (shotAt 200)"
proof -
  let ?calls = "replicate 101 fullCall"
  let ?rs = "returned ?calls initialState"
  let ?h = "history (runCalls ?calls initialState)"
  have same: "sameReadings quietEnv ?calls" and one: "oneAppend ?calls"
    by (simp_all add: sameReadings_def oneAppend_def list_all_iff fullCall_def)
  have rs: "?rs = map (\<lambda>k. shotAt (2 * k)) [0..<101]"
    by (simp add: returned_fullCall initialState_def del: upt.simps)
  have len: "length ?rs = 101" unfolding rs by simp
  have n0: "?rs ! 0 = shotAt 0" and n1: "?rs ! 1 = shotAt 2" and n100: "?rs ! 100 = shotAt 200"
    unfolding rs by (simp_all del: upt.simps)
  have i: "shot_id (shotAt 0) = ''ss_1700000000001_7''"
    by (simp add: shotAt_def idAt_def quietEnv_def env_defs digitsOf.simps digitChar_def)
  have old: "shotAt 0 \<in> set (take (length ?rs - 100) ?rs)"
    using n0 len by (simp add: take_Suc_conv_app_nth)
  have new: "shotAt 2 \<in> set (drop (length ?rs - 100) ?rs)"
    "shotAt 200 \<in> set (drop (length ?rs - 100) ?rs)"
    using n1 n100 len by (auto simp add: in_set_conv_nth intro: exI [of _ 0] exI [of _ 99])
  from history_is_a_ring_of_100 [of ?calls quietEnv] quiet_inj same one
  have h: "?h = drop (length ?rs - 100) ?rs"
    and gone: "\<forall>r \<in> set (take (length ?rs - 100) ?rs). getScreenshotById ?h (shot_id r) = None"
    and kept: "\<forall>r \<in> set (drop (length ?rs - 100) ?rs). getScreenshotById ?h (shot_id r) = Some r"
    by blast+
  from h len have l: "length ?h = 100" by simp
  from gone old i have g: "getScreenshotById ?h ''ss_1700000000001_7'' = None" by force
  from kept new have k: "getScreenshotById ?h (shot_id (shotAt 2)) = Some (shotAt 2)"
    "getScreenshotById ?h (shot_id (shotAt 200)) = Some (shotAt 200)"
    by blast+
  from quiet_inj same one len n0 n1 n100 i l g k show ?thesis by blast
qed

section \<open>What a successful capture leaves\<close>

lemma addToHistory_last [simp]:
  "addToHistory s h \<noteq> []" "last (addToHistory s h) = s"
  by (simp_all add: addToHistory_def)

lemma literal_options [simp]:
  "formatOf \<lparr>opt_windowTitle = a, opt_format = Some ''png'', opt_quality = None,
             opt_saveToFile = Some False, opt_x = b, opt_y = c, opt_width = d,
             opt_height = e, opt_appType = f\<rparr> = ''png''"
  "qualityOf \<lparr>opt_windowTitle = a, opt_format = Some ''png'', opt_quality = None,
              opt_saveToFile = Some False, opt_x = b, opt_y = c, opt_width = d,
              opt_height = e, opt_appType = f\<rparr> = 100"
  "saveToFileOf \<lparr>opt_windowTitle = a, opt_format = Some ''png'', opt_quality = None,
                 opt_saveToFile = Some False, opt_x = b, opt_y = c, opt_width = d,
                 opt_height = e, opt_appType = f\<rparr> = False"
  by (simp_all add: formatOf_def qualityOf_def saveToFileOf_def)

lemma captureWindow_kept: "wp (captureWindow env opts) kept st"
proof -
  obtain ws s1 where d: "getWindowList env st = (ws, s1)"
    by (cases "getWindowList env st")
  show ?thesis
    by (simp add: kept_def capture_defs wp_getWindowList [OF d])
qed

lemma capture_success:
  assumes "capture t env opts st = (Inr r, st')"
  shows "history st' \<noteq> [] \<and> last (history st') = r \<and> shot_id r \<noteq> [] \<and>
         (\<forall>p. filePath r = Some p \<longrightarrow> p \<noteq> [] \<and> files st' p \<noteq> None)"
proof -
  obtain ws s1 where d: "getWindowList env st = (ws, s1)"
    by (cases "getWindowList env st")
  have "wp (capture t env opts) kept st"
  proof (cases t)
    case Capture_full_screen
    then show ?thesis by (simp add: kept_def capture_defs)
  next
    case Capture_window
    then show ?thesis by (simp add: captureWindow_kept)
  next
    case Capture_application
    have "wp (captureApplication env opts) kept st"
      by (rule wp_captureApplication [OF d]) (simp_all add: kept_def captureWindow_kept)
    with Capture_application show ?thesis by simp
  next
    case Capture_region
    then show ?thesis by (simp add: kept_def capture_defs)
  qed
  from wpD [OF this] assms show ?thesis by (simp add: kept_def)
qed

lemma find_last:
  "xs \<noteq> [] \<Longrightarrow> P (last xs) \<Longrightarrow> \<forall>s \<in> set (butlast xs). \<not> P s \<Longrightarrow> find P xs = Some (last xs)"
  by (induction xs) (auto split: if_splits)

section \<open>Reading a capture back\<close>

text \<open>
  After a capture tool has answered with success, the resource \<open>history/{id}\<close>, asked for
  the id of the answer in the state the capture left, succeeds and returns the width,
  height and format of the answer, when no older entry of the history carries that id.
\<close>

lemma fresh_id_is_read_back:
  assumes "callTool t env opts st = (Success p, st')"
    and "\<forall>s \<in> set (butlast (history st')). shot_id s \<noteq> r_id p"
  shows "\<exists>q. screenshotById env' (Some (r_id p)) st' = Success q \<and> s_id q = r_id p \<and>
             s_width q = r_width p \<and> s_height q = r_height p \<and> s_format q = r_format p"
proof -
  from assms(1) obtain r where r: "capture t env opts st = (Inr r, st')"
    and p: "p = answer t opts r"
    by (auto simp add: callTool_def handler_def split: prod.splits sum.splits)
  note facts = capture_success [OF r]
  have id: "r_id p = shot_id r" using p by simp
  have "find (\<lambda>s. shot_id s = shot_id r) (history st') = Some (last (history st'))"
    using facts assms(2) id by (intro find_last) auto
  then have found: "getScreenshotById (history st') (shot_id r) = Some r"
    using facts by (simp add: getScreenshotById_def)
  show ?thesis
  proof (cases "filePath r")
    case None
    then show ?thesis
      using found facts id p by (simp add: screenshotById_def)
  next
    case (Some path)
    with facts obtain content where "path \<noteq> []" and "files st' path = Some content"
      by auto
    then show ?thesis
      using found facts id p Some by (simp add: screenshotById_def readFile_def)
  qed
qed

lemmas eval_defs = capture_defs monad_defs io_defs convert_def remember_def quietEnv_def env_defs
  formatOf_def qualityOf_def saveToFileOf_def stamp_def showInt_def digitsOf.simps
  digitChar_def addToHistory_def

lemma first_capture:
  "captureFullScreen quietEnv lowOpts initialState =
     (Inr firstShot,
      \<lparr>history = [firstShot],
       files = (\<lambda>_. None)(''/srv/screenshots/fullscreen_2024-01-01T00-00-00-000Z.png'' \<mapsto> ''jpeg:PNG''),
       trace = [Write ''/srv/screenshots/fullscreen_2024-01-01T00-00-00-000Z.png''],
       tick = 2\<rparr>)"
  by (simp add: eval_defs lowOpts_def firstShot_def)

lemma afterBig_eval:
  "afterBig =
     \<lparr>history = [\<lparr>shot_id = ''ss_5_7'', timestamp = ''2024-01-01T00:00:00.005Z'',
                  shot_type = ''region'', windowTitle = None, windowId = None,
                  region = Some (100, 100, 400, 300), format = ''png'', quality = 100,
                  width = 400, height = 300,
                  filePath = Some ''/srv/screenshots/region_100_100_400_300_2024-01-01T00-00-00-005Z.png'',
                  base64 = ''base64,PNG''\<rparr>],
      files = (\<lambda>_. None)(''/srv/screenshots/region_100_100_400_300_2024-01-01T00-00-00-005Z.png'' \<mapsto> ''PNG''),
      trace = [Spawn (ScreencaptureRegion 100 100 400 300 ''/srv/screenshots/temp_5.png''),
               Write ''/srv/screenshots/region_100_100_400_300_2024-01-01T00-00-00-005Z.png'',
               Remove ''/srv/screenshots/temp_5.png''],
      tick = 3\<rparr>"
  by (simp add: afterBig_def callTool_eq eval_defs stuckEnv_def regionOpts_def)

lemma big_capture:
  "fst (callTool Capture_region stuckEnv regionOpts initialState) = Success bigReply"
  by (simp add: callTool_eq eval_defs stuckEnv_def regionOpts_def bigReply_def replyOf_def)

lemma small_capture:
  "fst (callTool Capture_region stuckEnv smallOpts afterBig) = Success smallReply \<and>
   screenshotById stuckEnv (Some ''ss_5_7'') afterSmall = Success olderResource"
  by (simp add: afterSmall_def callTool_eq afterBig_eval eval_defs stuckEnv_def smallOpts_def
        smallReply_def replyOf_def screenshotById_def getScreenshotById_def olderResource_def)

text \<open>
  C9. The claim: a capture that succeeded is read back through \<open>history/{id}\<close> with the
  width, height and format of its answer. generateId, documented to generate a unique
  id, builds the id from the clock and a random number below 1000, and getScreenshotById
  returns the oldest entry with the id. Below, the clock and the random source give the
  same readings to two region captures: the second answers 10 by 20 under the id
  \<open>ss_5_7\<close>, and the resource asked for \<open>ss_5_7\<close> returns the first capture, 400 by 300.
\<close>

theorem colliding_id_reads_back_the_older_capture:
  "fst (callTool Capture_region stuckEnv regionOpts initialState) = Success bigReply \<and>
   r_id bigReply = ''ss_5_7'' \<and> r_width bigReply = 400 \<and> r_height bigReply = 300 \<and>
   fst (callTool Capture_region stuckEnv smallOpts afterBig) = Success smallReply \<and>
   r_id smallReply = ''ss_5_7'' \<and> r_width smallReply = 10 \<and> r_height smallReply = 20 \<and>
   screenshotById stuckEnv (Some ''ss_5_7'') afterSmall = Success olderResource \<and>
   s_id olderResource = ''ss_5_7'' \<and> s_width olderResource = 400 \<and> s_height olderResource = 300"
  using big_capture small_capture by (simp add: bigReply_def smallReply_def olderResource_def)

section \<open>Quality below 100 with the format png\<close>

lemma hasExtension_base [simp]: "hasExtension ext (CHR ''.'' # ext)"
  unfolding hasExtension_def by (rule exI [of _ "[]"]) simp

lemma hasExtension_append [simp]: "hasExtension ext b \<Longrightarrow> hasExtension ext (a @ b)"
  unfolding hasExtension_def
proof (elim exE)
  fix stem assume "b = stem @ ''.'' @ ext"
  then have "a @ b = (a @ stem) @ ''.'' @ ext" by simp
  then show "\<exists>stem. a @ b = stem @ ''.'' @ ext" ..
qed

lemma hasExtension_Cons [simp]: "hasExtension ext b \<Longrightarrow> hasExtension ext (c # b)"
  using hasExtension_append [of ext b "[c]"] by simp

lemma jpegOutputI1: "sharp env [Jpeg q] raw = Inr out \<Longrightarrow> jpegOutput env q out"
  unfolding jpegOutput_def by blast

lemma jpegOutputI2:
  "sharp env [Extract x y w h, ToFormat ''png'', Jpeg q] raw = Inr out \<Longrightarrow> jpegOutput env q out"
  unfolding jpegOutput_def by blast

lemma lowPngI:
  "format x = ''png'' \<Longrightarrow> quality x = q \<Longrightarrow> jpegOutput env q out \<Longrightarrow>
   base64 x = to_base64 env out \<Longrightarrow>
   (saveToFileOf opts \<Longrightarrow>
      \<exists>p. filePath x = Some p \<and> hasExtension ''png'' p \<and> files s' p = Some out) \<Longrightarrow>
   lowPng env opts q x s'"
  unfolding lowPng_def by blast

lemma lowPng_delegated [simp]:
  "lowPng env (delegated opts win) q x s' = lowPng env opts q x s'"
  by (simp add: lowPng_def)

lemma captureWindow_lowPng:
  assumes "formatOf opts = ''png''" and "qualityOf opts = q" and "q < 100"
  shows "wp (captureWindow env opts) (\<lambda>res s'. \<forall>x. res = Inr x \<longrightarrow> lowPng env opts q x s') st"
proof -
  obtain ws s1 where d: "getWindowList env st = (ws, s1)"
    by (cases "getWindowList env st")
  show ?thesis
    using assms
    by (auto simp add: capture_defs wp_getWindowList [OF d] intro!: lowPngI intro: jpegOutputI1)
qed

lemma capture_lowPng:
  assumes "formatOf opts = ''png''" and "qualityOf opts = q" and "q < 100"
  shows "wp (capture t env opts) (\<lambda>res s'. \<forall>x. res = Inr x \<longrightarrow> lowPng env opts q x s') st"
proof (cases t)
  case Capture_full_screen
  then show ?thesis
    using assms by (auto simp add: capture_defs intro!: lowPngI intro: jpegOutputI1)
next
  case Capture_window
  then show ?thesis
    using captureWindow_lowPng [OF assms] by simp
next
  case Capture_application
  obtain ws s1 where d: "getWindowList env st = (ws, s1)"
    by (cases "getWindowList env st")
  have "wp (captureApplication env opts)
          (\<lambda>res s'. \<forall>x. res = Inr x \<longrightarrow> lowPng env opts q x s') st"
  proof (rule wp_captureApplication [OF d])
    show "\<forall>x. Inl e = Inr x \<longrightarrow> lowPng env opts q x s1" for e :: string
      by simp
    show "wp (captureWindow env (delegated opts win))
            (\<lambda>res s'. \<forall>x. res = Inr x \<longrightarrow> lowPng env opts q x s') s1" for win
      using captureWindow_lowPng [of "delegated opts win" q env s1] assms by simp
  qed
  with Capture_application show ?thesis by simp
next
  case Capture_region
  then show ?thesis
    using assms
    by (auto simp add: capture_defs intro!: lowPngI intro: jpegOutputI1 jpegOutputI2)
qed

text \<open>
  C10. For each capture function (captureApplication ends in captureWindow), called with
  the format png and a quality from 1 to 99: when the call returns a record, the record's
  format is png, and its image is an output of sharp for a chain of operations that ends with
  \<open>.jpeg({quality})\<close>: the chain of the quality branch or, where a region is cropped out
  of a full-screen capture, the cropping chain. When the capture is saved, the file holds
  that same output under a name that ends with \<open>.png\<close>. (The tool's schema gives
  quality the range 1 to 100; zero is read as absent and becomes 100.)
\<close>

theorem low_quality_png_is_jpeg:
  assumes "formatOf opts = ''png''" and "opt_quality opts = Some q" and "0 < q" and "q < 100"
    and "capture t env opts st = (Inr r, st')"
  shows "format r = ''png'' \<and> r_format (answer t opts r) = ''png'' \<and>
         (\<exists>raw out.
            (sharp env [Jpeg q] raw = Inr out \<or>
             (\<exists>x y w h. sharp env [Extract x y w h, ToFormat ''png'', Jpeg q] raw = Inr out)) \<and>
            base64 r = to_base64 env out \<and>
            (saveToFileOf opts \<longrightarrow>
               (\<exists>stem. filePath r = Some (stem @ ''.png'') \<and>
                       files st' (stem @ ''.png'') = Some out)))"
proof -
  have q: "qualityOf opts = q"
    using assms(2,3) by (simp add: qualityOf_def)
  from wpD [OF capture_lowPng [OF assms(1) q assms(4)], of t env st] assms(5)
  have "lowPng env opts q r st'" by simp
  then obtain out where fmt: "format r = ''png''" and out: "jpegOutput env q out"
    and b64: "base64 r = to_base64 env out"
    and saved: "saveToFileOf opts \<longrightarrow>
       (\<exists>p. filePath r = Some p \<and> hasExtension ''png'' p \<and> files st' p = Some out)"
    unfolding lowPng_def by blast
  from out obtain raw where raw: "sharp env [Jpeg q] raw = Inr out \<or>
       (\<exists>x y w h. sharp env [Extract x y w h, ToFormat ''png'', Jpeg q] raw = Inr out)"
    unfolding jpegOutput_def by blast
  from saved have saved': "saveToFileOf opts \<longrightarrow>
       (\<exists>stem. filePath r = Some (stem @ ''.png'') \<and> files st' (stem @ ''.png'') = Some out)"
    unfolding hasExtension_def by auto
  from raw b64 saved' have "\<exists>raw out.
            (sharp env [Jpeg q] raw = Inr out \<or>
             (\<exists>x y w h. sharp env [Extract x y w h, ToFormat ''png'', Jpeg q] raw = Inr out)) \<and>
            base64 r = to_base64 env out \<and>
            (saveToFileOf opts \<longrightarrow>
               (\<exists>stem. filePath r = Some (stem @ ''.png'') \<and>
                       files st' (stem @ ''.png'') = Some out))"
    by blast
  with fmt show ?thesis
    by simp
qed

theorem low_quality_png_is_jpeg_witness:
  "formatOf lowOpts = ''png'' \<and> opt_quality lowOpts = Some 80 \<and> (0::int) < 80 \<and> (80::int) < 100 \<and>
   fst (capture Capture_full_screen quietEnv lowOpts initialState) = Inr firstShot \<and>
   desktop quietEnv = Inr ''PNG'' \<and> sharp quietEnv [Jpeg 80] ''PNG'' = Inr ''jpeg:PNG'' \<and>
   format firstShot = ''png'' \<and> r_format (answer Capture_full_screen lowOpts firstShot) = ''png'' \<and>
   base64 firstShot = to_base64 quietEnv ''jpeg:PNG'' \<and>
   (\<exists>raw out.
      (sharp quietEnv [Jpeg 80] raw = Inr out \<or>
       (\<exists>x y w h. sharp quietEnv [Extract x y w h, ToFormat ''png'', Jpeg 80] raw = Inr out)) \<and>
      base64 firstShot = to_base64 quietEnv out \<and>
      (\<exists>stem. filePath firstShot = Some (stem @ ''.png'') \<and>
              files (snd (capture Capture_full_screen quietEnv lowOpts initialState))
                    (stem @ ''.png'') = Some out))"
proof -
  have a: "formatOf lowOpts = ''png''" and b: "opt_quality lowOpts = Some 80"
    and s: "saveToFileOf lowOpts"
    by (simp_all add: lowOpts_def formatOf_def saveToFileOf_def)
  have c: "(0::int) < 80" and d: "(80::int) < 100" by simp_all
  have e: "capture Capture_full_screen quietEnv lowOpts initialState =
             (Inr firstShot, snd (capture Capture_full_screen quietEnv lowOpts initialState))"
    by (simp add: first_capture)
  have f: "desktop quietEnv = Inr ''PNG''" "sharp quietEnv [Jpeg 80] ''PNG'' = Inr ''jpeg:PNG''"
    "base64 firstShot = to_base64 quietEnv ''jpeg:PNG''"
    by (simp_all add: quietEnv_def env_defs firstShot_def)
  from low_quality_png_is_jpeg [OF a b c d e] s
  have g: "format firstShot = ''png'' \<and> r_format (answer Capture_full_screen lowOpts firstShot) = ''png'' \<and>
   (\<exists>raw out.
      (sharp quietEnv [Jpeg 80] raw = Inr out \<or>
       (\<exists>x y w h. sharp quietEnv [Extract x y w h, ToFormat ''png'', Jpeg 80] raw = Inr out)) \<and>
      base64 firstShot = to_base64 quietEnv out \<and>
      (\<exists>stem. filePath firstShot = Some (stem @ ''.png'') \<and>
              files (snd (capture Capture_full_screen quietEnv lowOpts initialState))
                    (stem @ ''.png'') = Some out))"
    by simp
  from a b c d e f g show ?thesis by (simp add: first_capture)
qed

section \<open>One malformed line\<close>

text \<open>
  The loop of getWindowListAppleScript runs over the lines of the trimmed output. The
  lemmas below show that trimming the whole output changes no record, so the records are
  those of the lines of the output as it came; and that a match of the regular
  expression of getWindowListScreencapture never crosses a line feed, so that parser too
  works line by line.
\<close>

lemma split_not_Nil [simp]: "split d s \<noteq> []"
  by (induction s) (auto split: list.splits)

lemma split_Cons_other:
  "c \<noteq> d \<Longrightarrow> split d (c # s) = (c # hd (split d s)) # tl (split d s)"
  by (cases "split d s") simp_all

lemma split_no_sep: "d \<notin> set l \<Longrightarrow> split d l = [l]"
  by (induction l) (auto split: list.splits)

lemma split_line: "d \<notin> set l \<Longrightarrow> split d (l @ d # rest) = l # split d rest"
  by (induction l) (auto split: list.splits)

lemma split_joinLines:
  "\<forall>l \<in> set ls. CHR 0x0A \<notin> set l \<Longrightarrow> ls \<noteq> [] \<Longrightarrow> split (CHR 0x0A) (joinLines ls) = ls"
proof (induction ls)
  case Nil
  then show ?case by simp
next
  case (Cons l ls)
  show ?case
  proof (cases ls)
    case Nil
    with Cons.prems show ?thesis by (simp add: joinLines_def split_no_sep)
  next
    case (Cons m ms)
    have "joinLines (l # ls) = l @ CHR 0x0A # joinLines ls"
      using Cons by (simp add: joinLines_def)
    moreover have "split (CHR 0x0A) (joinLines ls) = ls"
      using Cons.IH Cons.prems Cons by simp
    ultimately show ?thesis
      using Cons.prems by (simp add: split_line)
  qed
qed

lemma split_snoc:
  "split d (s @ [c]) =
     (if c = d then split d s @ [[]] else butlast (split d s) @ [last (split d s) @ [c]])"
proof (induction s)
  case Nil
  show ?case by simp
next
  case (Cons x s)
  obtain w ws where w: "split d s = w # ws" by (cases "split d s") simp_all
  obtain w' ws' where w': "split d (s @ [c]) = w' # ws'" by (cases "split d (s @ [c])") simp_all
  show ?case
    using Cons.IH w w' by (cases ws) (auto split: if_splits)
qed

lemma trim_Cons_space: "isWhiteSpace c \<Longrightarrow> trim (c # s) = trim s"
  by (simp add: trim_def)

lemma trim_snoc_space: "isWhiteSpace c \<Longrightarrow> trim (s @ [c]) = trim s"
proof (cases "\<forall>x \<in> set s. isWhiteSpace x")
  case True
  assume c: "isWhiteSpace c"
  from True have e1: "dropWhile isWhiteSpace s = []"
    by (induction s) simp_all
  from True c have "\<forall>x \<in> set (s @ [c]). isWhiteSpace x" by simp
  then have e2: "dropWhile isWhiteSpace (s @ [c]) = []"
    by (induction s) simp_all
  show ?thesis unfolding trim_def e1 e2 ..
next
  case False
  assume c: "isWhiteSpace c"
  from False obtain x where "x \<in> set s" and "\<not> isWhiteSpace x" by blast
  then have "dropWhile isWhiteSpace (s @ [c]) = dropWhile isWhiteSpace s @ [c]"
    by (rule dropWhile_append1)
  with c show ?thesis by (simp add: trim_def)
qed

lemma bar_not_space: "isWhiteSpace c \<Longrightarrow> c \<noteq> CHR ''|''"
  by (auto simp add: isWhiteSpace_def)

lemma appleScriptLine_Cons_space:
  assumes "isWhiteSpace c"
  shows "appleScriptLine (c # l) = appleScriptLine l"
proof -
  obtain p ps where p: "split (CHR ''|'') l = p # ps"
    by (cases "split (CHR ''|'') l") simp_all
  have parts: "split (CHR ''|'') (c # l) = (c # p) # ps"
    using bar_not_space [OF assms] p by simp
  show ?thesis
    using assms p parts
    by (cases ps; cases "tl ps")
       (auto simp add: appleScriptLine_def trim_Cons_space Let_def)
qed

lemma appleScriptLine_snoc_space:
  assumes "isWhiteSpace c"
  shows "appleScriptLine (l @ [c]) = appleScriptLine l"
proof -
  let ?P = "split (CHR ''|'') l"
  have parts: "split (CHR ''|'') (l @ [c]) = butlast ?P @ [last ?P @ [c]]"
    using bar_not_space [OF assms] by (simp add: split_snoc)
  have len: "length (butlast ?P @ [last ?P @ [c]]) = length ?P"
    by (simp add: Suc_leI)
  have nth: "trim ((butlast ?P @ [last ?P @ [c]]) ! i) = trim (?P ! i)" if "i < length ?P" for i
  proof (cases "i = length ?P - 1")
    case True
    then show ?thesis
      using assms by (simp add: nth_append last_conv_nth trim_snoc_space)
  next
    case False
    with that have "i < length (butlast ?P)" by simp
    then show ?thesis by (simp add: nth_append nth_butlast)
  qed
  show ?thesis
    using assms len nth [of 0] nth [of 1] nth [of 2]
    by (simp add: appleScriptLine_def parts trim_snoc_space Let_def del: length_append length_butlast)
qed

lemma appleScriptLine_Nil [simp]: "appleScriptLine [] = []"
  by (simp add: appleScriptLine_def trim_def)

lemma line_feed_space: "isWhiteSpace (CHR 0x0A)"
  by (simp add: isWhiteSpace_def)

lemma recordsOf_Cons_space:
  assumes "isWhiteSpace c"
  shows "recordsOf (c # s) = recordsOf s"
proof (cases "c = CHR 0x0A")
  case True
  then show ?thesis by (simp add: recordsOf_def)
next
  case False
  obtain w ws where w: "split (CHR 0x0A) s = w # ws"
    by (cases "split (CHR 0x0A) s") simp_all
  with False show ?thesis
    by (simp add: recordsOf_def appleScriptLine_Cons_space [OF assms])
qed

lemma recordsOf_snoc_space:
  assumes "isWhiteSpace c"
  shows "recordsOf (s @ [c]) = recordsOf s"
proof (cases "c = CHR 0x0A")
  case True
  then show ?thesis by (simp add: recordsOf_def split_snoc)
next
  case False
  obtain ls l where L: "split (CHR 0x0A) s = ls @ [l]"
    using split_not_Nil [of "CHR 0x0A" s] by (metis rev_exhaust)
  with False show ?thesis
    by (simp add: recordsOf_def split_snoc appleScriptLine_snoc_space [OF assms])
qed

lemma recordsOf_dropWhile: "recordsOf (dropWhile isWhiteSpace s) = recordsOf s"
  by (induction s) (simp_all add: recordsOf_Cons_space)

lemma recordsOf_dropWhile_end: "recordsOf (rev (dropWhile isWhiteSpace (rev s))) = recordsOf s"
  by (induction s rule: rev_induct) (simp_all add: recordsOf_snoc_space)

lemma recordsOf_trim: "recordsOf (trim s) = recordsOf s"
  by (simp add: trim_def recordsOf_dropWhile_end recordsOf_dropWhile)

lemma parseAppleScriptOutput_lines:
  "parseAppleScriptOutput out =
     (if startsWith (trim out) ''ERROR:'' then []
      else concat (map appleScriptLine (split (CHR 0x0A) out)))"
  using recordsOf_trim [of out] by (simp add: parseAppleScriptOutput_def recordsOf_def Let_def)

lemma line_feed_facts: "\<not> isDigit (CHR 0x0A)" "isLineTerminator (CHR 0x0A)"
  by (simp_all add: isDigit_def isLineTerminator_def)

lemma takeWhile_before:
  "\<not> P d \<Longrightarrow> takeWhile P (l @ d # rest) = takeWhile P l"
  by (induction l) simp_all

lemma dropWhile_before:
  "\<not> P d \<Longrightarrow> dropWhile P (l @ d # rest) = dropWhile P l @ d # rest"
  by (induction l) simp_all

lemma matchAt_unfold:
  "matchAt s =
     (if takeWhile isDigit s = [] then None
      else (case dropWhile isDigit s of
              a # b # t \<Rightarrow>
                if a = CHR ''.'' \<and> b = CHR '' '' \<and> takeWhile (\<lambda>c. \<not> isLineTerminator c) t \<noteq> []
                then Some (length (takeWhile isDigit s) + 2
                             + length (takeWhile (\<lambda>c. \<not> isLineTerminator c) t),
                           takeWhile isDigit s, takeWhile (\<lambda>c. \<not> isLineTerminator c) t)
                else None
            | _ \<Rightarrow> None))"
  unfolding matchAt_def Let_def by (rule refl)

lemma matchAt_line: "matchAt (l @ CHR 0x0A # rest) = matchAt l"
proof -
  define r where "r = dropWhile isDigit l"
  have ds: "takeWhile isDigit (l @ CHR 0x0A # rest) = takeWhile isDigit l"
    and dr: "dropWhile isDigit (l @ CHR 0x0A # rest) = r @ CHR 0x0A # rest"
    using line_feed_facts(1) by (simp_all add: takeWhile_before dropWhile_before r_def)
  have ttl: "takeWhile (\<lambda>c. \<not> isLineTerminator c) (t @ CHR 0x0A # rest) =
             takeWhile (\<lambda>c. \<not> isLineTerminator c) t" for t
    using line_feed_facts(2) by (simp add: takeWhile_before)
  have left: "matchAt (l @ CHR 0x0A # rest) =
     (if takeWhile isDigit l = [] then None
      else (case r @ CHR 0x0A # rest of
              a # b # t \<Rightarrow>
                if a = CHR ''.'' \<and> b = CHR '' '' \<and> takeWhile (\<lambda>c. \<not> isLineTerminator c) t \<noteq> []
                then Some (length (takeWhile isDigit l) + 2
                             + length (takeWhile (\<lambda>c. \<not> isLineTerminator c) t),
                           takeWhile isDigit l, takeWhile (\<lambda>c. \<not> isLineTerminator c) t)
                else None
            | _ \<Rightarrow> None))"
    unfolding matchAt_unfold [of "l @ CHR 0x0A # rest"] ds dr ..
  have right: "matchAt l =
     (if takeWhile isDigit l = [] then None
      else (case r of
              a # b # t \<Rightarrow>
                if a = CHR ''.'' \<and> b = CHR '' '' \<and> takeWhile (\<lambda>c. \<not> isLineTerminator c) t \<noteq> []
                then Some (length (takeWhile isDigit l) + 2
                             + length (takeWhile (\<lambda>c. \<not> isLineTerminator c) t),
                           takeWhile isDigit l, takeWhile (\<lambda>c. \<not> isLineTerminator c) t)
                else None
            | _ \<Rightarrow> None))"
    unfolding matchAt_unfold [of l] r_def ..
  show ?thesis
  proof (cases r)
    case Nil
    then show ?thesis unfolding left right by (cases rest) simp_all
  next
    case (Cons a r')
    then show ?thesis unfolding left right by (cases r') (simp_all add: ttl)
  qed
qed

lemma matchAt_length:
  assumes "matchAt s = Some (n, i, ttl)"
  shows "0 < n \<and> n \<le> length s"
proof -
  define r where "r = dropWhile isDigit s"
  have whole: "length s = length (takeWhile isDigit s) + length r"
    unfolding r_def by (metis length_append takeWhile_dropWhile_id)
  from assms obtain a b t where r: "r = a # b # t"
    and n: "n = length (takeWhile isDigit s) + 2 + length (takeWhile (\<lambda>c. \<not> isLineTerminator c) t)"
    unfolding matchAt_unfold [of s] r_def [symmetric]
    by (auto split: if_splits list.splits)
  have "length (takeWhile (\<lambda>c. \<not> isLineTerminator c) t) \<le> length t"
    by (rule length_takeWhile_le)
  with whole r n show ?thesis by simp
qed

lemma parseScreencaptureOutput_line:
  "parseScreencaptureOutput (l @ CHR 0x0A # rest) =
     parseScreencaptureOutput l @ parseScreencaptureOutput rest"
proof (induction l rule: parseScreencaptureOutput.induct)
  case 1
  have "matchAt (CHR 0x0A # rest) = None"
    using matchAt_line [of "[]" rest] by (simp add: matchAt_def)
  then show ?case by simp
next
  case (2 c cs)
  have m: "matchAt (c # cs @ CHR 0x0A # rest) = matchAt (c # cs)"
    using matchAt_line [of "c # cs" rest] by simp
  show ?case
  proof (cases "matchAt (c # cs)")
    case None
    with m "2.IH"(1) show ?thesis by simp
  next
    case (Some found)
    obtain n i ttl where found: "found = (n, i, ttl)" by (cases found)
    let ?w = "\<lparr>win_id = i, title = Some ttl, owner_name = elem (split (CHR '' '') ttl) 0,
               bounds = zeroBounds\<rparr>"
    from matchAt_length [of "c # cs" n i ttl] Some found have "n - 1 \<le> length cs"
      by simp arith
    then have d: "drop (n - 1) (cs @ CHR 0x0A # rest) = drop (n - 1) cs @ CHR 0x0A # rest"
      by simp
    have ih: "parseScreencaptureOutput (drop (n - 1) cs @ CHR 0x0A # rest) =
              parseScreencaptureOutput (drop (n - 1) cs) @ parseScreencaptureOutput rest"
      by (rule "2.IH"(2) [OF _ refl refl]) (simp add: Some found)
    have left: "parseScreencaptureOutput ((c # cs) @ CHR 0x0A # rest) =
          ?w # parseScreencaptureOutput (drop (n - 1) (cs @ CHR 0x0A # rest))"
      using m Some found by simp
    have right: "parseScreencaptureOutput (c # cs) = ?w # parseScreencaptureOutput (drop (n - 1) cs)"
      using Some found by simp
    show ?thesis unfolding left right d ih by simp
  qed
qed

lemma joinLines_Cons: "ls \<noteq> [] \<Longrightarrow> joinLines (l # ls) = l @ CHR 0x0A # joinLines ls"
  by (cases ls) (simp_all add: joinLines_def)

lemma parseScreencaptureOutput_joinLines:
  "parseScreencaptureOutput (joinLines ls) = concat (map parseScreencaptureOutput ls)"
proof (induction ls)
  case Nil
  show ?case by (simp add: joinLines_def)
next
  case (Cons l ls)
  show ?case
  proof (cases ls)
    case Nil
    then show ?thesis by (simp add: joinLines_def)
  next
    case (Cons m ms)
    then have "joinLines (l # ls) = l @ CHR 0x0A # joinLines ls"
      by (simp add: joinLines_Cons)
    with Cons.IH show ?thesis by (simp add: parseScreencaptureOutput_line)
  qed
qed

lemma numbered_entry:
  assumes "ds \<noteq> []" and "\<forall>c \<in> set ds. isDigit c"
    and "ttl \<noteq> []" and "\<forall>c \<in> set ttl. \<not> isLineTerminator c"
  shows "parseScreencaptureOutput (ds @ ''. '' @ ttl) =
           [\<lparr>win_id = ds, title = Some ttl, owner_name = elem (split (CHR '' '') ttl) 0,
             bounds = zeroBounds\<rparr>]"
proof -
  let ?text = "ds @ CHR ''.'' # CHR '' '' # ttl"
  have dot: "\<not> isDigit (CHR ''.'')" by (simp add: isDigit_def)
  have tw: "takeWhile isDigit ?text = ds"
    using assms(2) dot by (simp add: takeWhile_append)
  have dw: "dropWhile isDigit ?text = CHR ''.'' # CHR '' '' # ttl"
    using assms(2) dot by (simp add: dropWhile_append)
  have whole: "takeWhile (\<lambda>c. \<not> isLineTerminator c) ttl = ttl"
    using assms(4) by simp
  have m: "matchAt ?text = Some (length ds + 2 + length ttl, ds, ttl)"
    unfolding matchAt_unfold [of ?text] tw dw list.case whole
    using assms(1,3) by simp
  obtain c cs where ds: "ds = c # cs" using assms(1) by (cases ds) simp_all
  then have shape: "?text = c # (cs @ CHR ''.'' # CHR '' '' # ttl)" by simp
  have rest: "drop (length ds + 2 + length ttl - 1) (cs @ CHR ''.'' # CHR '' '' # ttl) = []"
    using ds by simp
  have "parseScreencaptureOutput ?text =
           [\<lparr>win_id = ds, title = Some ttl, owner_name = elem (split (CHR '' '') ttl) 0,
             bounds = zeroBounds\<rparr>]"
    using m rest unfolding shape by simp
  then show ?thesis by simp
qed

text \<open>
  C4, amended. In the parser of the AppleScript output, when the trimmed output does not
  begin with \<open>ERROR:\<close>, a blank line or a line with fewer than three fields adds no
  record, and the records returned are those of the lines before it followed by those of
  the lines after it; every non-blank line with at least three fields adds its one
  record. An output that begins with \<open>ERROR:\<close> gives no record at all. In the parser
  of the capture tool's listing, a line without a numbered entry adds no record, and the
  records returned are those of the lines before it followed by those of the lines after
  it; a line that is a numbered entry adds its one record.
\<close>

theorem malformed_line_is_dropped_alone:
  "((\<forall>l \<in> set (before @ bad # after). CHR 0x0A \<notin> set l) \<and>
    (trim bad = [] \<or> length (split (CHR ''|'') bad) < 3) \<and>
    \<not> startsWith (trim (joinLines (before @ bad # after))) ''ERROR:'' \<longrightarrow>
      parseAppleScriptOutput (joinLines (before @ bad # after)) =
        concat (map appleScriptLine before) @ concat (map appleScriptLine after)) \<and>
   (trim good \<noteq> [] \<and> length (split (CHR ''|'') good) \<ge> 3 \<longrightarrow>
      appleScriptLine good =
        [\<lparr>win_id = trim (split (CHR ''|'') good ! 2),
          title = Some (trim (split (CHR ''|'') good ! 1)),
          owner_name = Some (trim (split (CHR ''|'') good ! 0)), bounds = zeroBounds\<rparr>]) \<and>
   (startsWith (trim out) ''ERROR:'' \<longrightarrow> parseAppleScriptOutput out = []) \<and>
   (parseScreencaptureOutput bad = [] \<longrightarrow>
      parseScreencaptureOutput (joinLines (before @ bad # after)) =
        concat (map parseScreencaptureOutput before) @
        concat (map parseScreencaptureOutput after)) \<and>
   (ds \<noteq> [] \<and> (\<forall>c \<in> set ds. isDigit c) \<and> ttl \<noteq> [] \<and> (\<forall>c \<in> set ttl. \<not> isLineTerminator c) \<longrightarrow>
      parseScreencaptureOutput (ds @ ''. '' @ ttl) =
        [\<lparr>win_id = ds, title = Some ttl, owner_name = elem (split (CHR '' '') ttl) 0,
          bounds = zeroBounds\<rparr>])"
proof -
  have scripted: "parseAppleScriptOutput (joinLines (before @ bad # after)) =
        concat (map appleScriptLine before) @ concat (map appleScriptLine after)"
    if lines: "\<forall>l \<in> set (before @ bad # after). CHR 0x0A \<notin> set l"
      and bad: "trim bad = [] \<or> length (split (CHR ''|'') bad) < 3"
      and no_error: "\<not> startsWith (trim (joinLines (before @ bad # after))) ''ERROR:''"
  proof -
    have "split (CHR 0x0A) (joinLines (before @ bad # after)) = before @ bad # after"
      using lines by (intro split_joinLines) simp_all
    moreover have "appleScriptLine bad = []"
      using bad by (auto simp add: appleScriptLine_def Let_def)
    ultimately show ?thesis
      using no_error by (simp add: parseAppleScriptOutput_lines)
  qed
  have kept: "appleScriptLine good =
        [\<lparr>win_id = trim (split (CHR ''|'') good ! 2),
          title = Some (trim (split (CHR ''|'') good ! 1)),
          owner_name = Some (trim (split (CHR ''|'') good ! 0)), bounds = zeroBounds\<rparr>]"
    if "trim good \<noteq> []" and "length (split (CHR ''|'') good) \<ge> 3"
    using that by (simp add: appleScriptLine_def Let_def)
  have sentinel: "parseAppleScriptOutput out = []" if "startsWith (trim out) ''ERROR:''"
    using that by (simp add: parseAppleScriptOutput_def Let_def)
  have listed: "parseScreencaptureOutput (joinLines (before @ bad # after)) =
        concat (map parseScreencaptureOutput before) @
        concat (map parseScreencaptureOutput after)"
    if "parseScreencaptureOutput bad = []"
    using that by (simp add: parseScreencaptureOutput_joinLines)
  from scripted kept sentinel listed numbered_entry [of ds ttl] show ?thesis
    by blast
qed

text \<open>
  C4. The claim: in every parser a malformed line is dropped alone and the well-formed
  lines around it still give their records. The code: an AppleScript output whose first
  line begins with \<open>ERROR:\<close> gives no record, whatever follows; and the parser of the
  Swift output has no check of the fields, so it keeps the line \<open>garbage\<close> as a record
  without title, owner or numeric bounds.
\<close>

theorem malformed_line_counterexample:
  "parseAppleScriptOutput (joinLines [''ERROR: x'', ''Safari|My Page|1234'']) = [] \<and>
   appleScriptLine ''Safari|My Page|1234'' = [claimedRecord] \<and>
   parseSwiftOutput (joinLines [''1234|Safari|My Page|0|0|0|0'', ''garbage'',
                                ''77|Mail|Inbox|0|0|5|5'']) =
     [claimedRecord,
      \<lparr>win_id = ''garbage'', title = None, owner_name = None,
       bounds = Some \<lparr>rect_x = None, rect_y = None, rect_width = None, rect_height = None\<rparr>\<rparr>,
      \<lparr>win_id = ''77'', title = Some ''Inbox'', owner_name = Some ''Mail'',
       bounds = Some \<lparr>rect_x = Some 0, rect_y = Some 0, rect_width = Some 5,
                       rect_height = Some 5\<rparr>\<rparr>]"
  by (simp add: parser_defs joinLines_def claimedRecord_def)

theorem malformed_line_is_dropped_alone_witness:
  "CHR 0x0A \<notin> set ''Safari|My Page|1234'' \<and> CHR 0x0A \<notin> set ''garbage'' \<and>
   CHR 0x0A \<notin> set ''Mail|Inbox|77'' \<and>
   length (split (CHR ''|'') ''garbage'') < 3 \<and>
   \<not> startsWith (trim (joinLines ([''Safari|My Page|1234''] @ ''garbage'' # [''Mail|Inbox|77''])))
        ''ERROR:'' \<and>
   parseAppleScriptOutput (joinLines ([''Safari|My Page|1234''] @ ''garbage'' # [''Mail|Inbox|77''])) =
     [claimedRecord,
      \<lparr>win_id = ''77'', title = Some ''Inbox'', owner_name = Some ''Mail'', bounds = zeroBounds\<rparr>] \<and>
   trim ''Mail|Inbox|77'' \<noteq> [] \<and> length (split (CHR ''|'') ''Mail|Inbox|77'') \<ge> 3 \<and>
   appleScriptLine ''Mail|Inbox|77'' =
     [\<lparr>win_id = ''77'', title = Some ''Inbox'', owner_name = Some ''Mail'', bounds = zeroBounds\<rparr>] \<and>
   startsWith (trim ''ERROR: denied'') ''ERROR:'' \<and> parseAppleScriptOutput ''ERROR: denied'' = [] \<and>
   parseScreencaptureOutput ''junk'' = [] \<and>
   parseScreencaptureOutput (joinLines ([''12. Safari Home''] @ ''junk'' # [''7. Mail''])) =
     [\<lparr>win_id = ''12'', title = Some ''Safari Home'', owner_name = Some ''Safari'',
       bounds = zeroBounds\<rparr>,
      \<lparr>win_id = ''7'', title = Some ''Mail'', owner_name = Some ''Mail'', bounds = zeroBounds\<rparr>] \<and>
   ''12'' \<noteq> [] \<and> list_all isDigit ''12'' \<and> ''Safari Home'' \<noteq> [] \<and>
   list_all (\<lambda>c. \<not> isLineTerminator c) ''Safari Home'' \<and>
   parseScreencaptureOutput (''12'' @ ''. '' @ ''Safari Home'') =
     [\<lparr>win_id = ''12'', title = Some ''Safari Home'', owner_name = Some ''Safari'',
       bounds = zeroBounds\<rparr>]"
proof -
  let ?before = "[''Safari|My Page|1234'']" and ?after = "[''Mail|Inbox|77'']"
  let ?listed = "[''12. Safari Home'']" and ?rest = "[''7. Mail'']"
  have a: "\<forall>l \<in> set (?before @ ''garbage'' # ?after). CHR 0x0A \<notin> set l" by simp
  have b: "length (split (CHR ''|'') ''garbage'') < 3" by simp
  have c: "\<not> startsWith (trim (joinLines (?before @ ''garbage'' # ?after))) ''ERROR:''"
    by (simp add: joinLines_def trim_def isWhiteSpace_def)
  have d: "trim ''Mail|Inbox|77'' \<noteq> []" "length (split (CHR ''|'') ''Mail|Inbox|77'') \<ge> 3"
    by (simp_all add: trim_def isWhiteSpace_def)
  have e: "startsWith (trim ''ERROR: denied'') ''ERROR:''"
    by (simp add: trim_def isWhiteSpace_def)
  have f: "parseScreencaptureOutput ''junk'' = []"
    by (simp add: parser_defs)
  have g: "''12'' \<noteq> []" "\<forall>c \<in> set ''12''. isDigit c" "''Safari Home'' \<noteq> []"
    "\<forall>c \<in> set ''Safari Home''. \<not> isLineTerminator c"
    by (simp_all add: isDigit_def isLineTerminator_def)
  note t1 = malformed_line_is_dropped_alone
    [of ?before "''garbage''" ?after "''Mail|Inbox|77''" "''ERROR: denied''" "''12''" "''Safari Home''"]
  note t2 = malformed_line_is_dropped_alone
    [of ?listed "''junk''" ?rest "''Mail|Inbox|77''" "''ERROR: denied''" "''12''" "''Safari Home''"]
  from t1 a b c have r1: "parseAppleScriptOutput (joinLines (?before @ ''garbage'' # ?after)) =
      concat (map appleScriptLine ?before) @ concat (map appleScriptLine ?after)"
    by blast
  from t1 d have r2: "appleScriptLine ''Mail|Inbox|77'' =
     [\<lparr>win_id = ''77'', title = Some ''Inbox'', owner_name = Some ''Mail'', bounds = zeroBounds\<rparr>]"
    by (simp add: trim_def isWhiteSpace_def)
  from t1 e have r3: "parseAppleScriptOutput ''ERROR: denied'' = []" by blast
  from t2 f have r4: "parseScreencaptureOutput (joinLines (?listed @ ''junk'' # ?rest)) =
      concat (map parseScreencaptureOutput ?listed) @ concat (map parseScreencaptureOutput ?rest)"
    by blast
  from t1 g have r5: "parseScreencaptureOutput (''12'' @ ''. '' @ ''Safari Home'') =
     [\<lparr>win_id = ''12'', title = Some ''Safari Home'', owner_name = elem (split (CHR '' '') ''Safari Home'') 0,
       bounds = zeroBounds\<rparr>]"
    by blast
  have first: "appleScriptLine ''Safari|My Page|1234'' = [claimedRecord]"
    by (simp add: parser_defs claimedRecord_def)
  have entries: "parseScreencaptureOutput ''12. Safari Home'' =
      [\<lparr>win_id = ''12'', title = Some ''Safari Home'', owner_name = Some ''Safari'',
        bounds = zeroBounds\<rparr>]"
    "parseScreencaptureOutput ''7. Mail'' =
      [\<lparr>win_id = ''7'', title = Some ''Mail'', owner_name = Some ''Mail'', bounds = zeroBounds\<rparr>]"
    by (simp_all add: parser_defs)
  have owner: "elem (split (CHR '' '') ''Safari Home'') 0 = Some ''Safari''"
    by (simp add: elem_def)
  from a b c d e f g r1 r2 r3 r4 r5 first entries owner show ?thesis
    by (simp add: list_all_iff)
qed

end
